theory Spec2Isabelle
  imports Complex_Main "HOL-Library.Multiset"
begin

section \<open>Data model (types.ts)\<close>

subsection \<open>Numbers\<close>

text \<open>
  A JavaScript \<open>number\<close> is an IEEE 754 double: \<open>NaN\<close>, one of the two infinities, or
  a finite value, which the model holds as the exact rational it stands for. The two zeros are
  one value here: the code modelled below cannot tell them apart. Every rational can be written
  in \<open>Finite\<close>; the values of doubles are those that \<open>round_double\<close> leaves as they are
  (\<open>is_double\<close>), and every result of the arithmetic is one of them.
\<close>

datatype number = NaN | PosInf | NegInf | Finite rat

text \<open>
  Rounding to the nearest double, ties to the even significand: a value in the binade
  \<open>2^e \<le> |r| < 2^(e+1)\<close> is rounded to a multiple of \<open>2^(e-52)\<close>, with \<open>e\<close> no less
  than \<open>-1022\<close> (below that binade the doubles are the multiples of \<open>2^(-1074)\<close>). A rounded
  value of size \<open>2^1024\<close> or more is an infinity.
\<close>

definition round_half_even :: "rat \<Rightarrow> int" where
  "round_half_even x =
     (let f = \<lfloor>x\<rfloor>; d = x - of_int f
      in if d < 1 / 2 then f else if 1 / 2 < d then f + 1 else if even f then f else f + 1)"

fun exponent_up :: "nat \<Rightarrow> int \<Rightarrow> rat \<Rightarrow> int" where
  "exponent_up 0 e r = e"
| "exponent_up (Suc k) e r = (if 2 powi (e + 1) \<le> r then exponent_up k (e + 1) r else e)"

fun exponent_down :: "nat \<Rightarrow> int \<Rightarrow> rat \<Rightarrow> int" where
  "exponent_down 0 e r = e"
| "exponent_down (Suc k) e r = (if r < 2 powi e then exponent_down k (e - 1) r else e)"

definition binade :: "rat \<Rightarrow> int" where
  "binade r = (if 1 \<le> r then exponent_up 1024 0 r else exponent_down 1022 0 r)"

definition round_double :: "rat \<Rightarrow> number" where
  "round_double r =
     (if r = 0 then Finite 0
      else let q = 2 powi (binade \<bar>r\<bar> - 52);
               v = of_int (round_half_even (r / q)) * q
           in if 2 powi 1024 \<le> \<bar>v\<bar> then (if 0 < r then PosInf else NegInf) else Finite v)"

definition is_double :: "number \<Rightarrow> bool" where
  "is_double n = (case n of Finite r \<Rightarrow> round_double r = Finite r | _ \<Rightarrow> True)"

text \<open>
  The operators \<open>+\<close> and \<open>-\<close> of the source, and its test \<open>x <= 0\<close>, which is false
  for \<open>NaN\<close>.
\<close>

fun fneg :: "number \<Rightarrow> number" where
  "fneg NaN = NaN"
| "fneg PosInf = NegInf"
| "fneg NegInf = PosInf"
| "fneg (Finite a) = Finite (- a)"

fun fadd :: "number \<Rightarrow> number \<Rightarrow> number" where
  "fadd NaN y = NaN"
| "fadd x NaN = NaN"
| "fadd PosInf NegInf = NaN"
| "fadd NegInf PosInf = NaN"
| "fadd PosInf y = PosInf"
| "fadd x PosInf = PosInf"
| "fadd NegInf y = NegInf"
| "fadd x NegInf = NegInf"
| "fadd (Finite a) (Finite b) = round_double (a + b)"

definition fsub :: "number \<Rightarrow> number \<Rightarrow> number" where
  "fsub x y = fadd x (fneg y)"

fun le_zero :: "number \<Rightarrow> bool" where
  "le_zero NaN = False"
| "le_zero PosInf = False"
| "le_zero NegInf = True"
| "le_zero (Finite a) = (a \<le> 0)"

text \<open>
  The value of a number input is the empty string or a decimal numeral: \<open>None\<close> stands for
  the empty string and \<open>Some r\<close> for a numeral of the rational \<open>r\<close>. \<open>parseFloat\<close>
  reads the empty string as \<open>NaN\<close> and a numeral as the nearest double; \<open>x || 0\<close> is
  \<open>0\<close> when \<open>x\<close> is \<open>NaN\<close> or zero.
\<close>

definition parseFloat :: "rat option \<Rightarrow> number" where
  "parseFloat text = (case text of None \<Rightarrow> NaN | Some r \<Rightarrow> round_double r)"

definition or_zero :: "number \<Rightarrow> number" where
  "or_zero x = (if x = NaN \<or> x = Finite 0 then Finite 0 else x)"

text \<open>
  Whole numbers and sizes, for the ledgers on which no addition rounds: the rational of a
  finite number, whether it is a whole number, and its absolute value.
\<close>

definition value_of :: "number \<Rightarrow> rat" where
  "value_of n = (case n of Finite r \<Rightarrow> r | _ \<Rightarrow> 0)"

definition whole_number :: "number \<Rightarrow> bool" where
  "whole_number n = (case n of Finite r \<Rightarrow> of_int \<lfloor>r\<rfloor> = r | _ \<Rightarrow> False)"

definition magnitude :: "number \<Rightarrow> rat" where
  "magnitude n = \<bar>value_of n\<bar>"

subsection \<open>Transactions and summaries\<close>

text \<open>
  Strings are byte lists (UTF-8). The optional field \<open>runningBalance\<close> is an
  option. The field \<open>id\<close> of the source is called \<open>id_t\<close>, since \<open>id\<close> is
  the identity function of HOL.
\<close>

datatype TransactionType = INCOME | EXPENSE

record Transaction =
  id_t :: string
  date :: string
  description :: string
  amount :: number
  type :: TransactionType
  runningBalance :: "number option"

record Summary =
  initialBalance :: number
  totalIncome :: number
  totalExpenses :: number
  finalBalance :: number

section \<open>The platform: dates and Array.prototype.sort\<close>

text \<open>
  \<open>new Date(s).getTime()\<close> belongs to the JavaScript engine, not to the repository. The
  model takes it as a parameter \<open>getTime :: string \<Rightarrow> int option\<close>: the milliseconds
  since the epoch, or \<open>None\<close> for the \<open>NaN\<close> of an invalid date. The difference of two
  times is \<open>NaN\<close> as soon as one of them is.
\<close>

definition time_diff :: "int option \<Rightarrow> int option \<Rightarrow> int option" where
  "time_diff a b = (case a of None \<Rightarrow> None | Some x \<Rightarrow> (case b of None \<Rightarrow> None | Some y \<Rightarrow> Some (x - y)))"

text \<open>
  \<open>Array.prototype.sort\<close> with a comparator belongs to the engine as well, and the model
  takes it as a parameter \<open>srt\<close>. The standard fixes its result only in part. The result is
  always a permutation of the list. When the comparator is consistent on the elements, the
  result is sorted by it and stable; a comparator that is the difference of an integer key is
  consistent, and the result is then the stable sort by that key. For an inconsistent
  comparator (here: when a date does not parse, so that a result is \<open>NaN\<close>) the order is
  left to the engine. \<open>sort_contract\<close> says this much of a sort function and no more.
\<close>

definition sort_contract :: "(('a \<Rightarrow> 'a \<Rightarrow> int option) \<Rightarrow> 'a list \<Rightarrow> 'a list) \<Rightarrow> bool" where
  "sort_contract srt =
     ((\<forall>cmp xs. mset (srt cmp xs) = mset xs)
    \<and> (\<forall>cmp key xs. (\<forall>a \<in> set xs. \<forall>b \<in> set xs. cmp a b = Some (key a - key b))
           \<longrightarrow> srt cmp xs = sort_key key xs))"

text \<open>
  One engine that meets the contract: a stable insertion sort. It reads a comparator result
  \<open>v\<close> as "the first argument goes after the second" when \<open>v > 0\<close>, with \<open>NaN\<close> read
  as \<open>+0\<close>, as the standard has it. It stands for the engine at concrete inputs.
\<close>

definition goes_after :: "int option \<Rightarrow> bool" where
  "goes_after v = (case v of None \<Rightarrow> False | Some n \<Rightarrow> 0 < n)"

fun sort_insert :: "('a \<Rightarrow> 'a \<Rightarrow> int option) \<Rightarrow> 'a \<Rightarrow> 'a list \<Rightarrow> 'a list" where
  "sort_insert cmp x [] = [x]"
| "sort_insert cmp x (y # ys) =
     (if goes_after (cmp x y) then y # sort_insert cmp x ys else x # y # ys)"

definition array_sort :: "('a \<Rightarrow> 'a \<Rightarrow> int option) \<Rightarrow> 'a list \<Rightarrow> 'a list" where
  "array_sort cmp xs = foldr (sort_insert cmp) xs []"

section \<open>Balance processor (App.tsx)\<close>

text \<open>
  The comparator of \<open>processedTransactions\<close>:
  \<^verbatim>\<open>(a, b) => new Date(a.date).getTime() - new Date(b.date).getTime()\<close>
\<close>

definition compare_dates :: "(string \<Rightarrow> int option) \<Rightarrow> Transaction \<Rightarrow> Transaction \<Rightarrow> int option" where
  "compare_dates getTime a b = time_diff (getTime (date a)) (getTime (date b))"

text \<open>
  The \<open>map\<close> over the sorted copy, with its mutable variable \<open>current\<close> passed along:
  \<^verbatim>\<open>current = t.type === 'INCOME' ? current + t.amount : current - t.amount;
return { ...t, runningBalance: current };\<close>
\<close>

fun attach_running :: "number \<Rightarrow> Transaction list \<Rightarrow> Transaction list" where
  "attach_running current [] = []"
| "attach_running current (t # ts) =
     (let current' = (if type t = INCOME then fadd current (amount t) else fsub current (amount t))
      in t\<lparr>runningBalance := Some current'\<rparr> # attach_running current' ts)"

type_synonym sorter =
  "(Transaction \<Rightarrow> Transaction \<Rightarrow> int option) \<Rightarrow> Transaction list \<Rightarrow> Transaction list"

definition sorted_copy :: "sorter \<Rightarrow> (string \<Rightarrow> int option) \<Rightarrow> Transaction list \<Rightarrow> Transaction list" where
  "sorted_copy srt getTime txs = srt (compare_dates getTime) txs"

definition processedTransactions ::
    "sorter \<Rightarrow> (string \<Rightarrow> int option) \<Rightarrow> number \<Rightarrow> Transaction list \<Rightarrow> Transaction list" where
  "processedTransactions srt getTime initial txs =
     attach_running initial (sorted_copy srt getTime txs)"

text \<open>
  \<open>summary\<close>: two \<open>filter\<close>/\<open>reduce\<close> passes over the unsorted list, each
  \<open>reduce\<close> a left fold from \<open>0\<close>.
\<close>

definition summary :: "number \<Rightarrow> Transaction list \<Rightarrow> Summary" where
  "summary initial txs =
     (let income = foldl (\<lambda>acc t. fadd acc (amount t)) (Finite 0)
                     (filter (\<lambda>t. type t = INCOME) txs);
          expenses = foldl (\<lambda>acc t. fadd acc (amount t)) (Finite 0)
                       (filter (\<lambda>t. type t = EXPENSE) txs)
      in \<lparr>initialBalance = initial, totalIncome = income, totalExpenses = expenses,
          finalBalance = fsub (fadd initial income) expenses\<rparr>)"

text \<open>
  The signed contribution of one entry to the balance, as a rational; and the ledgers on
  which no addition rounds: the starting balance and every amount a whole number, their sizes
  adding up to \<open>2^53\<close> at most.
\<close>

definition signed_value :: "Transaction \<Rightarrow> rat" where
  "signed_value t = (if type t = INCOME then value_of (amount t) else - value_of (amount t))"

definition whole_ledger :: "number \<Rightarrow> Transaction list \<Rightarrow> bool" where
  "whole_ledger initial txs =
     (whole_number initial \<and> list_all (\<lambda>t. whole_number (amount t)) txs
      \<and> magnitude initial + sum_list (map (\<lambda>t. magnitude (amount t)) txs) \<le> 2 ^ 53)"


section \<open>A concrete date parser for the examples\<close>

text \<open>
  The date input of the form produces strings \<open>YYYY-MM-DD\<close>. For such a string
  \<open>new Date(s).getTime()\<close> is midnight UTC of that day, computed here with the day
  number of ECMAScript (\<open>DayFromYear\<close>). Every other string is \<open>None\<close> here; the
  theorems below hold for any \<open>getTime\<close> and use this one only at concrete inputs.
  The strings it reads are also taken as the valid date strings of a date input.
\<close>

definition digit_val :: "char \<Rightarrow> nat option" where
  "digit_val c = (let n = (of_char c :: nat) in if 48 \<le> n \<and> n \<le> 57 then Some (n - 48) else None)"

fun digits_val :: "nat \<Rightarrow> string \<Rightarrow> nat option" where
  "digits_val acc [] = Some acc"
| "digits_val acc (c # cs) =
     (case digit_val c of None \<Rightarrow> None | Some d \<Rightarrow> digits_val (10 * acc + d) cs)"

definition leap_year :: "nat \<Rightarrow> bool" where
  "leap_year y = (y mod 4 = 0 \<and> (y mod 100 \<noteq> 0 \<or> y mod 400 = 0))"

definition days_in_month :: "nat \<Rightarrow> nat \<Rightarrow> nat" where
  "days_in_month y m =
     (if m = 2 then (if leap_year y then 29 else 28)
      else if m = 4 \<or> m = 6 \<or> m = 9 \<or> m = 11 then 30 else 31)"

definition day_from_year :: "int \<Rightarrow> int" where
  "day_from_year y = 365 * (y - 1970) + (y - 1969) div 4 - (y - 1901) div 100 + (y - 1601) div 400"

definition days_before_month :: "nat \<Rightarrow> nat \<Rightarrow> nat" where
  "days_before_month y m = sum_list (map (days_in_month y) [1..<m])"

definition iso_getTime :: "string \<Rightarrow> int option" where
  "iso_getTime s =
     (if length s = 10 \<and> s ! 4 = CHR ''-'' \<and> s ! 7 = CHR ''-'' then
        (case digits_val 0 (take 4 s) of None \<Rightarrow> None | Some y \<Rightarrow>
        (case digits_val 0 (take 2 (drop 5 s)) of None \<Rightarrow> None | Some m \<Rightarrow>
        (case digits_val 0 (drop 8 s) of None \<Rightarrow> None | Some d \<Rightarrow>
           if 1 \<le> m \<and> m \<le> 12 \<and> 1 \<le> d \<and> d \<le> days_in_month y m
           then Some (86400000 * (day_from_year (int y) + int (days_before_month y m) + int d - 1))
           else None)))
      else None)"

definition iso_valid :: "string \<Rightarrow> bool" where
  "iso_valid s = (iso_getTime s \<noteq> None)"

section \<open>Entry store: the component state and its handlers (App.tsx)\<close>

text \<open>
  The state hooks of the component that the handlers read or write. The form fields carry the
  suffix \<open>_st\<close>, because \<open>date\<close>, \<open>description\<close>, \<open>amount\<close> and \<open>type\<close>
  are already the fields of a transaction. The amount field is bound to a number input, whose
  value is the empty string or a decimal numeral: \<open>None\<close> stands for the empty string and
  \<open>Some r\<close> for a numeral of the rational \<open>r\<close>.
\<close>

record app_state =
  initialBalance_st :: number
  transactions :: "Transaction list"
  description_st :: string
  amount_st :: "rat option"
  date_st :: string
  type_st :: TransactionType
  editingId :: "string option"
  editForm :: "Transaction option"

text \<open>
  A handler either returns early, leaving every hook as it was, or runs to its end and
  yields the new state with the console messages it wrote. The early returns are
  \<^item> \<open>FormRejected\<close>: the guard of \<open>handleAddTransaction\<close>;
  \<^item> \<open>NothingToSave\<close>: the guard \<open>!editForm || !editingId\<close> of \<open>saveEdit\<close>;
  \<^item> \<open>RemoteUpdateError\<close>: the branch of \<open>saveEdit\<close> that shows the alert
    "Erro ao atualizar no banco de dados." and returns.
  A handler runs on the state it was rendered with, one handler at a time. Two more results
  belong to the page rather than to a handler, and leave every hook as it was too:
  \<^item> \<open>SubmitBlocked\<close>: the browser found the form invalid and did not dispatch its
    \<open>submit\<close> event;
  \<^item> \<open>NotRendered\<close>: the control is not part of the page as rendered from the state.
\<close>

datatype early_return =
  FormRejected | NothingToSave | RemoteUpdateError | SubmitBlocked | NotRendered

datatype notice = ConsoleWarn string | ConsoleError string

type_synonym handler_result = "early_return + app_state \<times> notice list"

definition state_after :: "app_state \<Rightarrow> handler_result \<Rightarrow> app_state" where
  "state_after s r = (case r of Inl e \<Rightarrow> s | Inr (s', out) \<Rightarrow> s')"

text \<open>The ledger of the spec: the starting balance and the entries.\<close>

definition ledger :: "app_state \<Rightarrow> number \<times> Transaction list" where
  "ledger s = (initialBalance_st s, transactions s)"

text \<open>
  The remote store is the environment's. \<open>configured\<close> is the value of
  \<open>isSupabaseConfigured && supabase\<close>, and \<open>remote_error\<close> tells whether the awaited
  call came back with its \<open>error\<close> field set. \<open>uuid\<close> is the result of
  \<open>crypto.randomUUID()\<close>. The earlier versions of the component have no remote store and
  no editing: their \<open>handleAddTransaction\<close> and \<open>deleteTransaction\<close> are the ones
  below with \<open>configured = False\<close>.
\<close>

definition handleAddTransaction :: "bool \<Rightarrow> bool \<Rightarrow> string \<Rightarrow> app_state \<Rightarrow> handler_result" where
  "handleAddTransaction configured remote_error uuid s =
     (if description_st s = [] \<or> amount_st s = None \<or> le_zero (parseFloat (amount_st s))
      then Inl FormRejected
      else
        let newTransaction =
              \<lparr>id_t = uuid, date = date_st s, description = description_st s,
               amount = parseFloat (amount_st s), type = type_st s, runningBalance = None\<rparr>
        in Inr (s\<lparr>transactions := transactions s @ [newTransaction],
                  description_st := [], amount_st := None\<rparr>,
                if configured \<and> remote_error
                then [ConsoleWarn ''Erro ao salvar no banco de dados. Mantendo apenas local.'']
                else []))"

text \<open>
  \<open>handleAddTransaction\<close> is the \<open>onSubmit\<close> of the form and of nothing else. The browser
  dispatches \<open>submit\<close> only when the form is valid: the date input (\<open>type="date"\<close>,
  \<open>required\<close>) has the value of the hook when that is a valid date string and the empty
  value otherwise, and it must not be empty; the description (\<open>required\<close>) must not be
  empty; the amount (\<open>type="number"\<close>, \<open>required\<close>, \<open>step="0.01"\<close>) must not be empty
  and must meet its step. \<open>valid_date\<close> is the browser's test of a date string and
  \<open>step_ok\<close> its verdict on the step of the amount typed.
\<close>

definition form_valid :: "(string \<Rightarrow> bool) \<Rightarrow> bool \<Rightarrow> app_state \<Rightarrow> bool" where
  "form_valid valid_date step_ok s =
     (valid_date (date_st s) \<and> description_st s \<noteq> [] \<and> amount_st s \<noteq> None \<and> step_ok)"

definition submitForm ::
    "(string \<Rightarrow> bool) \<Rightarrow> bool \<Rightarrow> bool \<Rightarrow> bool \<Rightarrow> string \<Rightarrow> app_state \<Rightarrow> handler_result" where
  "submitForm valid_date step_ok configured remote_error uuid s =
     (if form_valid valid_date step_ok s
      then handleAddTransaction configured remote_error uuid s
      else Inl SubmitBlocked)"

definition deleteTransaction :: "bool \<Rightarrow> bool \<Rightarrow> string \<Rightarrow> app_state \<Rightarrow> handler_result" where
  "deleteTransaction configured remote_error i s =
     Inr (s\<lparr>transactions := filter (\<lambda>t. id_t t \<noteq> i) (transactions s)\<rparr>,
          if configured \<and> remote_error then [ConsoleError ''Erro ao deletar no Supabase''] else [])"

definition startEditing :: "Transaction \<Rightarrow> app_state \<Rightarrow> app_state" where
  "startEditing transaction s = s\<lparr>editingId := Some (id_t transaction), editForm := Some transaction\<rparr>"

definition cancelEditing :: "app_state \<Rightarrow> app_state" where
  "cancelEditing s = s\<lparr>editingId := None, editForm := None\<rparr>"

text \<open>
  The four inputs of the row being edited, each
  \<^verbatim>\<open>setEditForm(prev => prev ? { ...prev, field: value } : null)\<close>; the amount is
  \<open>parseFloat(e.target.value) || 0\<close>. The date input of the row is not \<open>required\<close> and
  is not part of a form: its value, and so the date of the edit form, can be the empty string.
\<close>

datatype edit_input =
  EditDate string | EditDescription string | EditType TransactionType | EditAmount "rat option"

fun edit_field :: "edit_input \<Rightarrow> Transaction \<Rightarrow> Transaction" where
  "edit_field (EditDate v) prev = prev\<lparr>date := v\<rparr>"
| "edit_field (EditDescription v) prev = prev\<lparr>description := v\<rparr>"
| "edit_field (EditType v) prev = prev\<lparr>type := v\<rparr>"
| "edit_field (EditAmount v) prev = prev\<lparr>amount := or_zero (parseFloat v)\<rparr>"

definition setEditForm :: "edit_input \<Rightarrow> app_state \<Rightarrow> app_state" where
  "setEditForm inp s =
     s\<lparr>editForm := (case editForm s of None \<Rightarrow> None | Some prev \<Rightarrow> Some (edit_field inp prev))\<rparr>"

definition saveEdit :: "bool \<Rightarrow> bool \<Rightarrow> app_state \<Rightarrow> handler_result" where
  "saveEdit configured remote_error s =
     (case editForm s of
        None \<Rightarrow> Inl NothingToSave
      | Some form \<Rightarrow>
          (case editingId s of
             None \<Rightarrow> Inl NothingToSave
           | Some eid \<Rightarrow>
               if eid = [] then Inl NothingToSave
               else if configured \<and> remote_error then Inl RemoteUpdateError
               else Inr (s\<lparr>transactions := map (\<lambda>t. if id_t t = eid then form else t) (transactions s),
                         editingId := None, editForm := None\<rparr>, [])))"

text \<open>
  \<open>saveEdit\<close> is the \<open>onClick\<close> of the save button and of nothing else. The table has one
  row for each element of \<open>processedTransactions\<close>, that is for each entry of the ledger,
  and the save button is in the rows with \<open>editingId === t.id\<close> only: it can be clicked
  when some entry carries the identifier under edit, and not otherwise.
\<close>

definition save_button_rendered :: "app_state \<Rightarrow> bool" where
  "save_button_rendered s = (\<exists>t \<in> set (transactions s). editingId s = Some (id_t t))"

definition clickSave :: "bool \<Rightarrow> bool \<Rightarrow> app_state \<Rightarrow> handler_result" where
  "clickSave configured remote_error s =
     (if save_button_rendered s then saveEdit configured remote_error s else Inl NotRendered)"

text \<open>The invariants of the store that the theorems speak about.\<close>

definition unique_ids :: "app_state \<Rightarrow> bool" where
  "unique_ids s = distinct (map id_t (transactions s))"

definition edit_keeps_id :: "app_state \<Rightarrow> bool" where
  "edit_keeps_id s = (case editForm s of None \<Rightarrow> True | Some form \<Rightarrow> editingId s = Some (id_t form))"

section \<open>Advice requester (services/geminiService.ts)\<close>

text \<open>
  The letters outside ASCII in the texts of the service, as their UTF-8 bytes.
\<close>

definition a_acute :: string where "a_acute = [CHR 0xC3, CHR 0xA1]"
definition a_tilde :: string where "a_tilde = [CHR 0xC3, CHR 0xA3]"
definition c_cedilla :: string where "c_cedilla = [CHR 0xC3, CHR 0xA7]"
definition e_circumflex :: string where "e_circumflex = [CHR 0xC3, CHR 0xAA]"
definition i_acute :: string where "i_acute = [CHR 0xC3, CHR 0xAD]"
definition o_tilde :: string where "o_tilde = [CHR 0xC3, CHR 0xB5]"
definition u_acute :: string where "u_acute = [CHR 0xC3, CHR 0xBA]"

text \<open>The sentences the service returns in place of an advice.\<close>

definition msg_no_entries :: string where
  "msg_no_entries = ''Adicione lan'' @ c_cedilla @ ''amentos para receber insights financeiros.''"

definition msg_key_pending :: string where
  "msg_key_pending = ''Configura'' @ c_cedilla @ a_tilde @ ''o de IA pendente. Adicione a API_KEY nas vari''
     @ a_acute @ ''veis de ambiente.''"

definition msg_no_advice :: string where
  "msg_no_advice = ''N'' @ a_tilde @ ''o foi poss'' @ i_acute @ ''vel gerar um conselho no momento.''"

definition msg_resting :: string where
  "msg_resting = ''A IA est'' @ a_acute @ '' descansando agora. Tente novamente em breve.''"

definition msg_error_v1 :: string where
  "msg_error_v1 = ''Erro ao obter insights da IA.''"

text \<open>\<open>xs.slice(-n)\<close> and \<open>lines.join(sep)\<close>.\<close>

definition slice_last :: "nat \<Rightarrow> 'a list \<Rightarrow> 'a list" where
  "slice_last n xs = drop (length xs - n) xs"

fun join :: "string \<Rightarrow> string list \<Rightarrow> string" where
  "join sep [] = []"
| "join sep [x] = x"
| "join sep (x # y # ys) = x @ sep @ join sep (y # ys)"

text \<open>
  \<open>Number.prototype.toFixed(2)\<close> is the engine's: the model takes it as a parameter
  \<open>toFixed2 :: number \<Rightarrow> string\<close>. One line of the request per recent transaction:
  \<^verbatim>\<open>- ${t.date}: ${t.description} (R$ ${t.amount.toFixed(2)} - ${t.type === 'INCOME' ? 'Entrada' : 'Saida'})\<close>
  (with the accented \<open>i\<close> of the source in the last word).
\<close>

definition recent_line :: "(number \<Rightarrow> string) \<Rightarrow> Transaction \<Rightarrow> string" where
  "recent_line toFixed2 t =
     ''- '' @ date t @ '': '' @ description t @ '' (R$ '' @ toFixed2 (amount t) @ '' - ''
     @ (if type t = INCOME then ''Entrada'' else ''Sa'' @ i_acute @ ''da'') @ '')''"

definition advice_contents :: "(number \<Rightarrow> string) \<Rightarrow> Transaction list \<Rightarrow> Summary \<Rightarrow> string" where
  "advice_contents toFixed2 txs sm =
     ''\<newline>        Atue como um especialista financeiro para aposentados e pensionistas do INSS brasileiros. ''
   @ ''\<newline>        Analise o seguinte resumo financeiro em Reais (R$):''
   @ ''\<newline>        - Saldo Inicial: R$ '' @ toFixed2 (initialBalance sm)
   @ ''\<newline>        - Total de Entradas: R$ '' @ toFixed2 (totalIncome sm)
   @ ''\<newline>        - Total de Sa'' @ i_acute @ ''das: R$ '' @ toFixed2 (totalExpenses sm)
   @ ''\<newline>        - Saldo Final: R$ '' @ toFixed2 (finalBalance sm)
   @ ''\<newline>        ''
   @ ''\<newline>        Transa'' @ c_cedilla @ o_tilde @ ''es recentes:''
   @ ''\<newline>        '' @ join ''\<newline>'' (map (recent_line toFixed2) (slice_last 5 txs))
   @ ''\<newline>''
   @ ''\<newline>        D'' @ e_circumflex @ '' um conselho curto (m'' @ a_acute
   @ ''ximo 3 frases) e motivador em portugu'' @ e_circumflex @ ''s.''
   @ ''\<newline>      ''"

text \<open>
  The remote endpoint is the environment's: \<open>generateContent apiKey contents\<close> stands for
  building the client with the key and awaiting \<open>ai.models.generateContent\<close>. It either
  throws or returns a response, whose \<open>text\<close> may be undefined (\<open>None\<close>). The
  \<open>console.error\<close> of the \<open>catch\<close> branch is not part of the result.
  \<open>API_KEY\<close> is \<open>process.env.API_KEY\<close>. The result of the service is an
  \<open>attempt\<close> as well, so that "it never throws" is a statement about the model.
\<close>

datatype 'a attempt = Throws | Returns 'a

definition text_or :: "string option \<Rightarrow> string \<Rightarrow> string" where
  "text_or response_text fallback =
     (case response_text of None \<Rightarrow> fallback | Some t \<Rightarrow> if t = [] then fallback else t)"

definition getFinancialAdvice ::
    "string option \<Rightarrow> (string \<Rightarrow> string \<Rightarrow> string option attempt) \<Rightarrow> (number \<Rightarrow> string)
      \<Rightarrow> Transaction list \<Rightarrow> Summary \<Rightarrow> string attempt" where
  "getFinancialAdvice API_KEY generateContent toFixed2 txs sm =
     (if length txs = 0 then Returns msg_no_entries
      else case API_KEY of
        None \<Rightarrow> Returns msg_key_pending
      | Some apiKey \<Rightarrow>
          if apiKey = [] then Returns msg_key_pending
          else (case generateContent apiKey (advice_contents toFixed2 txs sm) of
                  Throws \<Rightarrow> Returns msg_resting
                | Returns response_text \<Rightarrow> Returns (text_or response_text msg_no_advice)))"

text \<open>
  The earlier variant of the service builds its client once, with
  \<open>process.env.API_KEY || ""\<close>, has no check of the key, and prints \<open>t.type\<close> as it is.
\<close>

definition type_name :: "TransactionType \<Rightarrow> string" where
  "type_name ty = (case ty of INCOME \<Rightarrow> ''INCOME'' | EXPENSE \<Rightarrow> ''EXPENSE'')"

definition recent_line_v1 :: "(number \<Rightarrow> string) \<Rightarrow> Transaction \<Rightarrow> string" where
  "recent_line_v1 toFixed2 t =
     ''- '' @ date t @ '': '' @ description t @ '' (R$ '' @ toFixed2 (amount t) @ '' - ''
     @ type_name (type t) @ '')''"

definition advice_contents_v1 :: "(number \<Rightarrow> string) \<Rightarrow> Transaction list \<Rightarrow> Summary \<Rightarrow> string" where
  "advice_contents_v1 toFixed2 txs sm =
     ''\<newline>        Atue como um especialista financeiro para aposentados e pensionistas do INSS. ''
   @ ''\<newline>        Analise o seguinte resumo financeiro:''
   @ ''\<newline>        - Saldo Inicial: R$ '' @ toFixed2 (initialBalance sm)
   @ ''\<newline>        - Total de Entradas: R$ '' @ toFixed2 (totalIncome sm)
   @ ''\<newline>        - Total de Sa'' @ i_acute @ ''das: R$ '' @ toFixed2 (totalExpenses sm)
   @ ''\<newline>        - Saldo Final: R$ '' @ toFixed2 (finalBalance sm)
   @ ''\<newline>        ''
   @ ''\<newline>        Transa'' @ c_cedilla @ o_tilde @ ''es recentes:''
   @ ''\<newline>        '' @ join ''\<newline>'' (map (recent_line_v1 toFixed2) (slice_last 5 txs))
   @ ''\<newline>''
   @ ''\<newline>        D'' @ e_circumflex @ '' um conselho curto (m'' @ a_acute
   @ ''ximo 3 frases) e motivador sobre a sa'' @ u_acute @ ''de financeira deste usu'' @ a_acute @ ''rio.''
   @ ''\<newline>      ''"

definition getFinancialAdvice_v1 ::
    "string option \<Rightarrow> (string \<Rightarrow> string \<Rightarrow> string option attempt) \<Rightarrow> (number \<Rightarrow> string)
      \<Rightarrow> Transaction list \<Rightarrow> Summary \<Rightarrow> string attempt" where
  "getFinancialAdvice_v1 API_KEY generateContent toFixed2 txs sm =
     (if length txs = 0 then Returns msg_no_entries
      else (case generateContent (case API_KEY of None \<Rightarrow> [] | Some k \<Rightarrow> k)
                   (advice_contents_v1 toFixed2 txs sm) of
              Throws \<Rightarrow> Returns msg_error_v1
            | Returns response_text \<Rightarrow> Returns (text_or response_text msg_no_advice)))"

section \<open>A concrete number format for the examples\<close>

text \<open>
  \<open>x.toFixed(2)\<close> for a finite number below \<open>10^21\<close> in size: the integer \<open>n\<close>
  nearest to \<open>100 * |x|\<close> (the larger one on a tie), written with at least three digits and a
  point before the last two, after a minus sign when \<open>x < 0\<close>; and the names of the other
  numbers. The theorems hold for any \<open>toFixed2\<close> and use this one only at concrete inputs.
\<close>

definition digit_char :: "nat \<Rightarrow> char" where
  "digit_char d = ''0123456789'' ! d"

fun decimal :: "nat \<Rightarrow> string" where
  "decimal n = (if n < 10 then [digit_char n] else decimal (n div 10) @ [digit_char (n mod 10)])"

definition fixed2_finite :: "rat \<Rightarrow> string" where
  "fixed2_finite x =
     (let n = nat \<lfloor>\<bar>x\<bar> * 100 + 1 / 2\<rfloor>
      in (if x < 0 then ''-'' else [])
         @ decimal (n div 100) @ ''.'' @ [digit_char (n div 10 mod 10), digit_char (n mod 10)])"

definition fixed2 :: "number \<Rightarrow> string" where
  "fixed2 x =
     (case x of NaN \<Rightarrow> ''NaN'' | PosInf \<Rightarrow> ''Infinity'' | NegInf \<Rightarrow> ''-Infinity''
      | Finite r \<Rightarrow> fixed2_finite r)"

section \<open>Concrete ledgers and states for the examples\<close>

definition tx_pension :: Transaction where
  "tx_pension = \<lparr>id_t = ''a'', date = ''2024-01-05'', description = ''pension'', amount = Finite 500,
     type = INCOME, runningBalance = None\<rparr>"

definition tx_rent :: Transaction where
  "tx_rent = \<lparr>id_t = ''b'', date = ''2024-01-01'', description = ''rent'', amount = Finite 200,
     type = EXPENSE, runningBalance = None\<rparr>"

definition tx_pharmacy :: Transaction where
  "tx_pharmacy = \<lparr>id_t = ''c'', date = ''2024-01-05'', description = ''pharmacy'', amount = Finite 50,
     type = EXPENSE, runningBalance = None\<rparr>"

definition example1 :: "Transaction list" where
  "example1 = [tx_pension, tx_rent]"

definition example_ties :: "Transaction list" where
  "example_ties = [tx_pension, tx_rent, tx_pharmacy]"

definition idle_state :: app_state where
  "idle_state = \<lparr>initialBalance_st = Finite 1000, transactions = example1, description_st = [],
     amount_st = None, date_st = ''2024-01-10'', type_st = INCOME, editingId = None,
     editForm = None\<rparr>"

text \<open>
  Forms ready to be submitted: one with the amount \<open>-5\<close>, one whose date field has been
  cleared, and one that is in order.
\<close>

definition negative_amount_form :: app_state where
  "negative_amount_form = idle_state\<lparr>description_st := ''refund'', amount_st := Some (- 5)\<rparr>"

definition cleared_date_form :: app_state where
  "cleared_date_form = idle_state\<lparr>description_st := ''pension'', amount_st := Some 5, date_st := []\<rparr>"

definition filled_form :: app_state where
  "filled_form = idle_state\<lparr>description_st := ''pharmacy'', amount_st := Some 50, type_st := EXPENSE\<rparr>"

text \<open>
  The row of the pension under edit, its amount changed to \<open>600\<close>; an edit state for
  an entry that the ledger does not hold; and the row of the rent, as the table shows it with
  its running balance, under edit with a new description.
\<close>

definition editing_pension :: app_state where
  "editing_pension = setEditForm (EditAmount (Some 600)) (startEditing tx_pension idle_state)"

definition editing_absent :: app_state where
  "editing_absent = startEditing tx_pharmacy idle_state"

definition rent_row :: Transaction where
  "rent_row = tx_rent\<lparr>runningBalance := Some (Finite 800)\<rparr>"

definition editing_rent :: app_state where
  "editing_rent = setEditForm (EditDescription ''rent and fees'') (startEditing rent_row idle_state)"





text \<open>
  Entries of one day with the amounts typed as \<open>0.1\<close>, \<open>0.3\<close>, \<open>0.2\<close> and
  \<open>0.3\<close>, each the nearest double.
\<close>

definition tx_interest :: Transaction where
  "tx_interest = \<lparr>id_t = ''d1'', date = ''2024-01-01'', description = ''interest'',
     amount = parseFloat (Some (1 / 10)), type = INCOME, runningBalance = None\<rparr>"

definition tx_fee :: Transaction where
  "tx_fee = \<lparr>id_t = ''d2'', date = ''2024-01-01'', description = ''fee'',
     amount = parseFloat (Some (3 / 10)), type = EXPENSE, runningBalance = None\<rparr>"

definition tx_refund :: Transaction where
  "tx_refund = \<lparr>id_t = ''d3'', date = ''2024-01-01'', description = ''refund'',
     amount = parseFloat (Some (2 / 10)), type = INCOME, runningBalance = None\<rparr>"

definition tx_bonus :: Transaction where
  "tx_bonus = \<lparr>id_t = ''d4'', date = ''2024-01-01'', description = ''bonus'',
     amount = parseFloat (Some (3 / 10)), type = INCOME, runningBalance = None\<rparr>"

text \<open>
  Five recent entries, to be preceded by different older ones; and a remote endpoint that is
  down, one that answers, and one that answers without a text.
\<close>

definition recent_five :: "Transaction list" where
  "recent_five = [tx_pension, tx_rent, tx_pharmacy, tx_rent, tx_pension]"

definition remote_down :: "string \<Rightarrow> string \<Rightarrow> string option attempt" where
  "remote_down apiKey contents = Throws"

definition remote_answers :: "string \<Rightarrow> string \<Rightarrow> string option attempt" where
  "remote_answers apiKey contents = Returns (Some ''Poupe um pouco todo mes.'')"

definition remote_silent :: "string \<Rightarrow> string \<Rightarrow> string option attempt" where
  "remote_silent apiKey contents = Returns None"

section \<open>Properties of the arithmetic\<close>

subsection \<open>The binade of a value\<close>

lemma two_powi_less: "a < b \<Longrightarrow> (2::rat) powi a < 2 powi b"
  by (rule power_int_strict_increasing) simp_all

lemma two_powi_le: "a \<le> b \<Longrightarrow> (2::rat) powi a \<le> 2 powi b"
  by (rule power_int_increasing) simp_all

lemma two_powi_less_cancel: "(2::rat) powi a < 2 powi b \<Longrightarrow> a < b"
  using two_powi_le [of b a] by (cases "a < b") auto

lemma exponent_up_eq:
  "c \<le> e \<Longrightarrow> nat (e - c) \<le> k \<Longrightarrow> 2 powi e \<le> r \<Longrightarrow> r < 2 powi (e + 1) \<Longrightarrow>
   exponent_up k c r = e"
proof (induction k arbitrary: c)
  case 0
  then show ?case by simp
next
  case (Suc k)
  show ?case
  proof (cases "2 powi (c + 1) \<le> r")
    case True
    with Suc.prems(4) have "(2::rat) powi (c + 1) < 2 powi (e + 1)" by simp
    then have "c + 1 \<le> e" using two_powi_less_cancel [of "c + 1" "e + 1"] by simp
    moreover from Suc.prems(2) this have "nat (e - (c + 1)) \<le> k" by simp
    ultimately have "exponent_up k (c + 1) r = e"
      using Suc.prems(3,4) by (intro Suc.IH)
    with True show ?thesis by simp
  next
    case False
    with Suc.prems(3) have "(2::rat) powi e < 2 powi (c + 1)" by simp
    then have "e < c + 1" by (rule two_powi_less_cancel)
    with Suc.prems(1) have "c = e" by simp
    with False show ?thesis by simp
  qed
qed

lemma exponent_down_eq:
  "e \<le> c \<Longrightarrow> nat (c - e) \<le> k \<Longrightarrow> 2 powi e \<le> r \<Longrightarrow> r < 2 powi (e + 1) \<Longrightarrow>
   exponent_down k c r = e"
proof (induction k arbitrary: c)
  case 0
  then show ?case by simp
next
  case (Suc k)
  show ?case
  proof (cases "r < 2 powi c")
    case True
    with Suc.prems(3) have "(2::rat) powi e < 2 powi c" by simp
    then have "e \<le> c - 1" using two_powi_less_cancel [of e c] by simp
    moreover from Suc.prems(2) this have "nat (c - 1 - e) \<le> k" by simp
    ultimately have "exponent_down k (c - 1) r = e"
      using Suc.prems(3,4) by (intro Suc.IH)
    with True show ?thesis by simp
  next
    case False
    with Suc.prems(4) have "(2::rat) powi c < 2 powi (e + 1)" by simp
    then have "c < e + 1" by (rule two_powi_less_cancel)
    with Suc.prems(1) have "c = e" by simp
    with False show ?thesis by simp
  qed
qed

lemma binade_eq:
  assumes "- 1022 \<le> e" and "e \<le> 1024" and "2 powi e \<le> r" and "r < 2 powi (e + 1)"
  shows "binade r = e"
proof (cases "1 \<le> r")
  case True
  with assms(4) have "(2::rat) powi 0 < 2 powi (e + 1)" by simp
  then have "0 \<le> e" using two_powi_less_cancel [of 0 "e + 1"] by simp
  moreover from this assms(2) have "nat (e - 0) \<le> 1024" by simp
  ultimately have "exponent_up 1024 0 r = e" using assms(3,4) by (intro exponent_up_eq)
  with True show ?thesis by (simp add: binade_def)
next
  case False
  with assms(3) have "(2::rat) powi e < 2 powi 0" by simp
  then have "e \<le> 0" using two_powi_less_cancel [of e 0] by simp
  moreover from assms(1) have "nat (0 - e) \<le> 1022" by simp
  ultimately have "exponent_down 1022 0 r = e" using assms(3,4) by (intro exponent_down_eq)
  with False show ?thesis by (simp add: binade_def)
qed

lemma round_double_eval:
  assumes "r \<noteq> 0" and "- 1022 \<le> e" and "e \<le> 1023"
    and "2 powi e \<le> \<bar>r\<bar>" and "\<bar>r\<bar> < 2 powi (e + 1)"
    and "\<bar>of_int (round_half_even (r / 2 powi (e - 52))) * 2 powi (e - 52)\<bar> < (2::rat) powi 1024"
  shows "round_double r = Finite (of_int (round_half_even (r / 2 powi (e - 52))) * 2 powi (e - 52))"
proof -
  from assms(2,3,4,5) have "binade \<bar>r\<bar> = e" by (intro binade_eq) simp_all
  with assms(1,6) show ?thesis by (simp add: round_double_def Let_def)
qed

subsection \<open>Whole numbers are not rounded\<close>

lemma round_half_even_of_int: "round_half_even (of_int k) = k"
  by (simp add: round_half_even_def)

lemma binade_exists:
  fixes a :: int
  assumes "1 \<le> a"
  shows "\<exists>e::nat. 2 ^ e \<le> a \<and> a < 2 ^ (e + 1)"
proof -
  from assms have "1 \<le> nat a" by simp
  from ex_power_ivl1 [of 2 "nat a"] this
  obtain n where lo: "2 ^ n \<le> nat a" and hi: "nat a < 2 ^ (n + 1)" by auto
  from assms have a: "int (nat a) = a" by simp
  from lo have "int (2 ^ n) \<le> int (nat a)" by (simp only: of_nat_le_iff)
  with a have lo': "2 ^ n \<le> a" by simp
  from hi have "int (nat a) < int (2 ^ (n + 1))" by (simp only: of_nat_less_iff)
  with a have hi': "a < 2 ^ (n + 1)" by simp
  from lo' hi' show ?thesis by blast
qed

lemma round_double_whole:
  assumes "\<bar>m\<bar> \<le> 2 ^ 53"
  shows "round_double (of_int m) = Finite (of_int m)"
proof (cases "m = 0")
  case True
  then show ?thesis by (simp add: round_double_def)
next
  case False
  then have "1 \<le> \<bar>m\<bar>" by simp
  from binade_exists [OF this] obtain e :: nat
    where lo: "2 ^ e \<le> \<bar>m\<bar>" and hi: "\<bar>m\<bar> < 2 ^ (e + 1)" by blast
  from lo assms have "(2::int) ^ e \<le> 2 ^ 53" by linarith
  then have e53: "e \<le> 53" by (rule power_le_imp_le_exp [rotated]) simp
  let ?r = "of_int m :: rat"
  have lo': "(2::rat) powi int e \<le> \<bar>?r\<bar>"
  proof -
    from lo have "(of_int (2 ^ e) :: rat) \<le> of_int \<bar>m\<bar>" by (simp only: of_int_le_iff)
    then show ?thesis by simp
  qed
  have hi': "\<bar>?r\<bar> < (2::rat) powi (int e + 1)"
  proof -
    from hi have "(of_int \<bar>m\<bar> :: rat) < of_int (2 ^ (e + 1))" by (simp only: of_int_less_iff)
    moreover have "(2::rat) powi (int e + 1) = 2 ^ (e + 1)"
      using power_int_of_nat [of "2::rat" "e + 1"] by (simp add: add.commute)
    ultimately show ?thesis by simp
  qed
  have bin: "binade \<bar>?r\<bar> = int e"
    using e53 lo' hi' by (intro binade_eq) simp_all
  have whole: "\<exists>k. ?r / 2 powi (int e - 52) = of_int k"
  proof (cases "e \<le> 52")
    case True
    then have d: "int e - 52 = - int (52 - e)" by simp
    have "(2::rat) powi (int e - 52) = inverse (2 ^ (52 - e))"
      by (simp only: d power_int_minus power_int_of_nat)
    then have "?r / 2 powi (int e - 52) = of_int (m * 2 ^ (52 - e))"
      by (simp add: field_simps)
    then show ?thesis by blast
  next
    case False
    with e53 have e: "e = 53" by simp
    with lo assms have "\<bar>m\<bar> = 2 ^ 53" by simp
    then have "m = 2 ^ 53 \<or> m = - (2 ^ 53)" by linarith
    then have "?r / 2 powi (int e - 52) = of_int (m div 2)"
      using e by auto
    then show ?thesis by blast
  qed
  then obtain k where k: "?r / 2 powi (int e - 52) = of_int k" by blast
  have pos: "(2::rat) powi (int e - 52) \<noteq> 0" by simp
  from k pos have v: "of_int k * 2 powi (int e - 52) = ?r"
    by (metis nonzero_divide_eq_eq)
  have "\<bar>?r\<bar> \<le> 2 ^ 53"
  proof -
    from assms have "(of_int \<bar>m\<bar> :: rat) \<le> of_int (2 ^ 53)" by (simp only: of_int_le_iff)
    then show ?thesis by simp
  qed
  also have "\<dots> < (2::rat) powi 1024" by simp
  finally have small: "\<not> 2 powi 1024 \<le> \<bar>?r\<bar>" by simp
  from False have "?r \<noteq> 0" by simp
  then show ?thesis
    using small by (simp add: round_double_def Let_def bin k round_half_even_of_int v)
qed

subsection \<open>The sign of a rounded value\<close>

lemma round_half_even_nonpos:
  assumes "x \<le> 0"
  shows "round_half_even x \<le> 0"
proof -
  define k where "k = \<lfloor>x\<rfloor>"
  from assms have "\<lfloor>x\<rfloor> \<le> 0" by (simp add: floor_le_zero)
  then have k: "k \<le> 0" by (simp only: k_def)
  have r: "round_half_even x =
     (if x - of_int k < 1 / 2 then k else if 1 / 2 < x - of_int k then k + 1
      else if even k then k else k + 1)"
    by (simp add: round_half_even_def Let_def k_def)
  show ?thesis
  proof (cases "k = 0")
    case True
    have "of_int \<lfloor>x\<rfloor> \<le> x" by (rule of_int_floor_le)
    then have "of_int k \<le> x" by (simp only: k_def)
    with True assms have "x = 0" by simp
    with True r show ?thesis by simp
  next
    case False
    with k have "k + 1 \<le> 0" by simp
    with k r show ?thesis by simp
  qed
qed

lemma le_zero_round_double: "r \<le> 0 \<Longrightarrow> le_zero (round_double r)"
proof (cases "r = 0")
  case True
  then show ?thesis by (simp add: round_double_def)
next
  case False
  assume "r \<le> 0"
  with False have neg: "r < 0" by simp
  let ?q = "(2::rat) powi (binade \<bar>r\<bar> - 52)"
  have q: "0 < ?q" by simp
  with neg have "r / ?q \<le> 0" by (simp add: divide_le_0_iff)
  then have "round_half_even (r / ?q) \<le> 0" by (rule round_half_even_nonpos)
  then have "(of_int (round_half_even (r / ?q)) :: rat) \<le> 0" by simp
  with q have "of_int (round_half_even (r / ?q)) * ?q \<le> 0"
    by (simp add: mult_le_0_iff)
  with neg False show ?thesis by (simp add: round_double_def Let_def)
qed

subsection \<open>Sums of whole numbers\<close>

lemma whole_number_cases:
  assumes "whole_number n"
  obtains k :: int where "n = Finite (of_int k)"
proof (cases n)
  case NaN
  with assms show ?thesis by (simp add: whole_number_def)
next
  case PosInf
  with assms show ?thesis by (simp add: whole_number_def)
next
  case NegInf
  with assms show ?thesis by (simp add: whole_number_def)
next
  case (Finite r)
  with assms have "of_int \<lfloor>r\<rfloor> = r" by (simp only: whole_number_def number.case)
  with Finite have "n = Finite (of_int \<lfloor>r\<rfloor>)" by (simp only:)
  then show ?thesis by (rule that)
qed

lemma whole_number_of_int [simp]: "whole_number (Finite (of_int k))"
  by (simp add: whole_number_def)

lemma value_of_Finite [simp]: "value_of (Finite r) = r"
  by (simp add: value_of_def)

lemma magnitude_Finite [simp]: "magnitude (Finite r) = \<bar>r\<bar>"
  by (simp add: magnitude_def)

lemma magnitude_nonneg: "0 \<le> magnitude n"
  by (simp add: magnitude_def)

lemma int_bound:
  fixes k :: int
  assumes "(of_int \<bar>k\<bar> :: rat) \<le> 2 ^ 53"
  shows "\<bar>k\<bar> \<le> 2 ^ 53"
proof -
  from assms have "(of_int \<bar>k\<bar> :: rat) \<le> of_int (2 ^ 53)" by simp
  then show ?thesis by (simp only: of_int_le_iff)
qed

lemma fadd_whole:
  assumes "whole_number a" and "whole_number b" and "magnitude a + magnitude b \<le> 2 ^ 53"
  shows "fadd a b = Finite (value_of a + value_of b)"
proof -
  from assms(1) obtain ka where a: "a = Finite (of_int ka)" by (rule whole_number_cases)
  from assms(2) obtain kb where b: "b = Finite (of_int kb)" by (rule whole_number_cases)
  have "(of_int \<bar>ka + kb\<bar> :: rat) \<le> \<bar>of_int ka\<bar> + \<bar>of_int kb\<bar>" by simp
  also from assms(3) a b have "\<dots> \<le> 2 ^ 53" by simp
  finally have "\<bar>ka + kb\<bar> \<le> 2 ^ 53" by (rule int_bound)
  then have "round_double (of_int (ka + kb)) = Finite (of_int (ka + kb))"
    by (rule round_double_whole)
  with a b show ?thesis by simp
qed

lemma fsub_whole:
  assumes "whole_number a" and "whole_number b" and "magnitude a + magnitude b \<le> 2 ^ 53"
  shows "fsub a b = Finite (value_of a - value_of b)"
proof -
  from assms(2) obtain kb where b: "b = Finite (of_int kb)" by (rule whole_number_cases)
  then have n: "fneg b = Finite (of_int (- kb))" by simp
  then have "whole_number (fneg b)" by (simp only: whole_number_of_int)
  moreover from n b have "magnitude (fneg b) = magnitude b" by simp
  ultimately have "fadd a (fneg b) = Finite (value_of a + value_of (fneg b))"
    using assms(1,3) by (intro fadd_whole) simp_all
  with n b show ?thesis by (simp add: fsub_def)
qed

lemma whole_sum:
  assumes "whole_number a" and "whole_number b"
  shows "whole_number (Finite (value_of a + value_of b))"
    and "whole_number (Finite (value_of a - value_of b))"
proof -
  from assms(1) obtain ka where a: "a = Finite (of_int ka)" by (rule whole_number_cases)
  from assms(2) obtain kb where b: "b = Finite (of_int kb)" by (rule whole_number_cases)
  have "value_of a + value_of b = of_int (ka + kb)" using a b by simp
  then show "whole_number (Finite (value_of a + value_of b))" by (simp only: whole_number_of_int)
  have "value_of a - value_of b = of_int (ka - kb)" using a b by simp
  then show "whole_number (Finite (value_of a - value_of b))" by (simp only: whole_number_of_int)
qed

lemma whole_ledger_Cons:
  "whole_ledger c (t # ts) =
     (whole_number c \<and> whole_number (amount t) \<and> list_all (\<lambda>t. whole_number (amount t)) ts
      \<and> magnitude c + magnitude (amount t) + sum_list (map (\<lambda>t. magnitude (amount t)) ts) \<le> 2 ^ 53)"
  by (auto simp: whole_ledger_def)

lemma sum_magnitude_nonneg: "0 \<le> sum_list (map (\<lambda>t. magnitude (amount t)) ts)"
  by (induction ts) (simp_all add: magnitude_nonneg)

lemma foldl_step_whole:
  "whole_ledger c ts \<Longrightarrow>
   foldl (\<lambda>b t. if type t = INCOME then fadd b (amount t) else fsub b (amount t)) c ts
     = Finite (value_of c + sum_list (map signed_value ts))"
proof (induction ts arbitrary: c)
  case Nil
  then obtain k :: int where "c = Finite (of_int k)"
    by (auto simp: whole_ledger_def elim: whole_number_cases)
  then show ?case by simp
next
  case (Cons t ts)
  let ?step = "\<lambda>b t. if type t = INCOME then fadd b (amount t) else fsub b (amount t)"
  from Cons.prems have wc: "whole_number c" and wt: "whole_number (amount t)"
    and ws: "list_all (\<lambda>t. whole_number (amount t)) ts"
    and bound: "magnitude c + magnitude (amount t) + sum_list (map (\<lambda>t. magnitude (amount t)) ts) \<le> 2 ^ 53"
    by (simp_all add: whole_ledger_Cons)
  from bound sum_magnitude_nonneg [of ts] have b2: "magnitude c + magnitude (amount t) \<le> 2 ^ 53"
    by linarith
  have step: "?step c t = Finite (value_of c + signed_value t)"
    using fadd_whole [OF wc wt b2] fsub_whole [OF wc wt b2] by (simp add: signed_value_def)
  have wn: "whole_number (Finite (value_of c + signed_value t))"
    using whole_sum [OF wc wt] by (simp add: signed_value_def)
  have "magnitude (Finite (value_of c + signed_value t)) \<le> magnitude c + magnitude (amount t)"
    by (simp add: signed_value_def magnitude_def abs_triangle_ineq abs_triangle_ineq4)
  with bound have "magnitude (Finite (value_of c + signed_value t))
      + sum_list (map (\<lambda>t. magnitude (amount t)) ts) \<le> 2 ^ 53" by linarith
  with wn ws have "whole_ledger (Finite (value_of c + signed_value t)) ts"
    by (simp add: whole_ledger_def)
  from Cons.IH [OF this] have "foldl ?step (Finite (value_of c + signed_value t)) ts
      = Finite (value_of c + signed_value t + sum_list (map signed_value ts))" by simp
  with step show ?case by (simp add: add.assoc)
qed

lemma reduce_whole:
  "whole_ledger acc xs \<Longrightarrow>
   foldl (\<lambda>acc t. fadd acc (amount t)) acc xs
     = Finite (value_of acc + sum_list (map (\<lambda>t. value_of (amount t)) xs))"
proof (induction xs arbitrary: acc)
  case Nil
  then obtain k :: int where "acc = Finite (of_int k)"
    by (auto simp: whole_ledger_def elim: whole_number_cases)
  then show ?case by simp
next
  case (Cons t ts)
  from Cons.prems have wc: "whole_number acc" and wt: "whole_number (amount t)"
    and ws: "list_all (\<lambda>t. whole_number (amount t)) ts"
    and bound: "magnitude acc + magnitude (amount t) + sum_list (map (\<lambda>t. magnitude (amount t)) ts) \<le> 2 ^ 53"
    by (simp_all add: whole_ledger_Cons)
  from bound sum_magnitude_nonneg [of ts] have b2: "magnitude acc + magnitude (amount t) \<le> 2 ^ 53"
    by linarith
  note step = fadd_whole [OF wc wt b2]
  note wn = whole_sum(1) [OF wc wt]
  have "magnitude (Finite (value_of acc + value_of (amount t))) \<le> magnitude acc + magnitude (amount t)"
    by (simp add: magnitude_def abs_triangle_ineq)
  with bound have "magnitude (Finite (value_of acc + value_of (amount t)))
      + sum_list (map (\<lambda>t. magnitude (amount t)) ts) \<le> 2 ^ 53" by linarith
  with wn ws have "whole_ledger (Finite (value_of acc + value_of (amount t))) ts"
    by (simp add: whole_ledger_def)
  from Cons.IH [OF this] step show ?case by (simp add: add.assoc)
qed

subsection \<open>Arithmetic at concrete values\<close>

lemma floor_rat_numeral: "\<lfloor>(numeral a :: rat) / numeral b\<rfloor> = numeral a div numeral b"
  using floor_divide_of_int_eq [of "numeral a" "numeral b", where ?'a = rat] by simp

lemma floor_rat_neg_numeral: "\<lfloor>- ((numeral a :: rat) / numeral b)\<rfloor> = - numeral a div numeral b"
  using floor_divide_of_int_eq [of "- numeral a" "numeral b", where ?'a = rat] by simp

lemmas eval_simps = round_half_even_def Let_def floor_rat_numeral floor_rat_neg_numeral

lemma round_double_numeral:
  "(numeral n :: int) \<le> 2 ^ 53 \<Longrightarrow> round_double (numeral n) = Finite (numeral n)"
  using round_double_whole [of "numeral n"] by simp

lemma round_double_neg_numeral:
  "(numeral n :: int) \<le> 2 ^ 53 \<Longrightarrow> round_double (- numeral n) = Finite (- numeral n)"
  using round_double_whole [of "- numeral n"] by simp

lemmas whole_simps = round_double_numeral round_double_neg_numeral

lemma double_tenth: "round_double (1 / 10) = Finite (3602879701896397 / 36028797018963968)"
  using round_double_eval [of "1 / 10" "-4"] by (simp add: eval_simps)

lemma double_two_tenths: "round_double (1 / 5) = Finite (3602879701896397 / 18014398509481984)"
  using round_double_eval [of "1 / 5" "-3"] by (simp add: eval_simps)

lemma double_three_tenths: "round_double (3 / 10) = Finite (5404319552844595 / 18014398509481984)"
  using round_double_eval [of "3 / 10" "-2"] by (simp add: eval_simps)

lemma add_zero_tenth: "fadd (Finite (0)) (Finite (3602879701896397 / 36028797018963968)) = Finite (3602879701896397 / 36028797018963968)"
proof -
  have "round_double (3602879701896397 / 36028797018963968) = Finite (3602879701896397 / 36028797018963968)"
    using round_double_eval [of "3602879701896397 / 36028797018963968" "-4"] by (simp add: eval_simps)
  moreover have "(0) + (3602879701896397 / 36028797018963968) = (3602879701896397 / 36028797018963968 :: rat)" by simp
  ultimately show ?thesis by (simp only: fadd.simps)
qed

lemma sub_tenth_three_tenths: "fsub (Finite (3602879701896397 / 36028797018963968)) (Finite (5404319552844595 / 18014398509481984)) = Finite (- (7205759403792793 / 36028797018963968))"
proof -
  have "round_double (- (7205759403792793 / 36028797018963968)) = Finite (- (7205759403792793 / 36028797018963968))"
    using round_double_eval [of "- (7205759403792793 / 36028797018963968)" "-3"] by (simp add: eval_simps)
  moreover have "(3602879701896397 / 36028797018963968) + - (5404319552844595 / 18014398509481984) = (- (7205759403792793 / 36028797018963968) :: rat)" by simp
  ultimately show ?thesis by (simp only: fsub_def fneg.simps fadd.simps)
qed

lemma add_back_two_tenths: "fadd (Finite (- (7205759403792793 / 36028797018963968))) (Finite (3602879701896397 / 18014398509481984)) = Finite (1 / 36028797018963968)"
proof -
  have "round_double (1 / 36028797018963968) = Finite (1 / 36028797018963968)"
    using round_double_eval [of "1 / 36028797018963968" "-55"] by (simp add: eval_simps)
  moreover have "(- (7205759403792793 / 36028797018963968)) + (3602879701896397 / 18014398509481984) = (1 / 36028797018963968 :: rat)" by simp
  ultimately show ?thesis by (simp only: fadd.simps)
qed

lemma add_tenth_two_tenths: "fadd (Finite (3602879701896397 / 36028797018963968)) (Finite (3602879701896397 / 18014398509481984)) = Finite (1351079888211149 / 4503599627370496)"
proof -
  have "round_double (10808639105689191 / 36028797018963968) = Finite (1351079888211149 / 4503599627370496)"
    using round_double_eval [of "10808639105689191 / 36028797018963968" "-2"] by (simp add: eval_simps)
  moreover have "(3602879701896397 / 36028797018963968) + (3602879701896397 / 18014398509481984) = (10808639105689191 / 36028797018963968 :: rat)" by simp
  ultimately show ?thesis by (simp only: fadd.simps)
qed

lemma add_zero_three_tenths: "fadd (Finite (0)) (Finite (5404319552844595 / 18014398509481984)) = Finite (5404319552844595 / 18014398509481984)"
proof -
  have "round_double (5404319552844595 / 18014398509481984) = Finite (5404319552844595 / 18014398509481984)"
    using round_double_eval [of "5404319552844595 / 18014398509481984" "-2"] by (simp add: eval_simps)
  moreover have "(0) + (5404319552844595 / 18014398509481984) = (5404319552844595 / 18014398509481984 :: rat)" by simp
  ultimately show ?thesis by (simp only: fadd.simps)
qed

lemma add_zero_sum: "fadd (Finite (0)) (Finite (1351079888211149 / 4503599627370496)) = Finite (1351079888211149 / 4503599627370496)"
proof -
  have "round_double (1351079888211149 / 4503599627370496) = Finite (1351079888211149 / 4503599627370496)"
    using round_double_eval [of "1351079888211149 / 4503599627370496" "-2"] by (simp add: eval_simps)
  moreover have "(0) + (1351079888211149 / 4503599627370496) = (1351079888211149 / 4503599627370496 :: rat)" by simp
  ultimately show ?thesis by (simp only: fadd.simps)
qed

lemma sub_sum_three_tenths: "fsub (Finite (1351079888211149 / 4503599627370496)) (Finite (5404319552844595 / 18014398509481984)) = Finite (1 / 18014398509481984)"
proof -
  have "round_double (1 / 18014398509481984) = Finite (1 / 18014398509481984)"
    using round_double_eval [of "1 / 18014398509481984" "-54"] by (simp add: eval_simps)
  moreover have "(1351079888211149 / 4503599627370496) + - (5404319552844595 / 18014398509481984) = (1 / 18014398509481984 :: rat)" by simp
  ultimately show ?thesis by (simp only: fsub_def fneg.simps fadd.simps)
qed

lemma add_sum_three_tenths: "fadd (Finite (1351079888211149 / 4503599627370496)) (Finite (5404319552844595 / 18014398509481984)) = Finite (1351079888211149 / 2251799813685248)"
proof -
  have "round_double (10808639105689191 / 18014398509481984) = Finite (1351079888211149 / 2251799813685248)"
    using round_double_eval [of "10808639105689191 / 18014398509481984" "-1"] by (simp add: eval_simps)
  moreover have "(1351079888211149 / 4503599627370496) + (5404319552844595 / 18014398509481984) = (10808639105689191 / 18014398509481984 :: rat)" by simp
  ultimately show ?thesis by (simp only: fadd.simps)
qed

lemma add_three_tenths_two_tenths: "fadd (Finite (5404319552844595 / 18014398509481984)) (Finite (3602879701896397 / 18014398509481984)) = Finite (1 / 2)"
proof -
  have "round_double (1 / 2) = Finite (1 / 2)"
    using round_double_eval [of "1 / 2" "-1"] by (simp add: eval_simps)
  moreover have "(5404319552844595 / 18014398509481984) + (3602879701896397 / 18014398509481984) = (1 / 2 :: rat)" by simp
  ultimately show ?thesis by (simp only: fadd.simps)
qed

lemma add_half_tenth: "fadd (Finite (1 / 2)) (Finite (3602879701896397 / 36028797018963968)) = Finite (5404319552844595 / 9007199254740992)"
proof -
  have "round_double (21617278211378381 / 36028797018963968) = Finite (5404319552844595 / 9007199254740992)"
    using round_double_eval [of "21617278211378381 / 36028797018963968" "-1"] by (simp add: eval_simps)
  moreover have "(1 / 2) + (3602879701896397 / 36028797018963968) = (21617278211378381 / 36028797018963968 :: rat)" by simp
  ultimately show ?thesis by (simp only: fadd.simps)
qed

section \<open>Properties of the balance processor\<close>

subsection \<open>The insertion sort meets the contract of the engine\<close>

lemma mset_sort_insert: "mset (sort_insert cmp x ys) = add_mset x (mset ys)"
  by (induction ys) auto

lemma mset_array_sort: "mset (array_sort cmp xs) = mset xs"
  unfolding array_sort_def by (induction xs) (auto simp: mset_sort_insert)

lemma sort_insert_insort:
  "\<forall>y \<in> set ys. cmp x y = Some (key x - key y) \<Longrightarrow> sort_insert cmp x ys = insort_key key x ys"
  by (induction ys) (auto simp: goes_after_def)

lemma array_sort_sort_key:
  "\<forall>a \<in> set xs. \<forall>b \<in> set xs. cmp a b = Some (key a - key b) \<Longrightarrow>
   array_sort cmp xs = sort_key key xs"
proof (induction xs)
  case Nil
  show ?case by (simp add: array_sort_def)
next
  case (Cons x xs)
  then have ih: "array_sort cmp xs = sort_key key xs" by simp
  from Cons.prems have "\<forall>y \<in> set (sort_key key xs). cmp x y = Some (key x - key y)" by simp
  then have "sort_insert cmp x (sort_key key xs) = insort_key key x (sort_key key xs)"
    by (rule sort_insert_insort)
  with ih show ?case by (simp add: array_sort_def)
qed

lemma array_sort_contract: "sort_contract array_sort"
  unfolding sort_contract_def by (intro conjI allI impI mset_array_sort array_sort_sort_key)

subsection \<open>What the contract gives for the sorted copy\<close>

lemma mset_sorted_copy: "sort_contract srt \<Longrightarrow> mset (sorted_copy srt getTime txs) = mset txs"
  by (simp add: sorted_copy_def sort_contract_def)

lemma length_sorted_copy: "sort_contract srt \<Longrightarrow> length (sorted_copy srt getTime txs) = length txs"
  using mset_sorted_copy [of srt getTime txs] by (metis size_mset)



subsection \<open>The running balance\<close>

lemma length_attach_running: "length (attach_running c ts) = length ts"
  by (induction ts arbitrary: c) (auto simp: Let_def)

lemma attach_running_nth:
  "i < length ts \<Longrightarrow>
   attach_running c ts ! i =
     (ts ! i)\<lparr>runningBalance :=
        Some (foldl (\<lambda>b t. if type t = INCOME then fadd b (amount t) else fsub b (amount t)) c
               (take (Suc i) ts))\<rparr>"
proof (induction ts arbitrary: c i)
  case Nil
  then show ?case by simp
next
  case (Cons t ts)
  show ?case
  proof (cases i)
    case 0
    then show ?thesis by (simp add: Let_def)
  next
    case (Suc j)
    with Cons.prems have "j < length ts" by simp
    from Cons.IH [OF this] Suc show ?thesis by (simp add: Let_def)
  qed
qed

lemma attach_running_last:
  assumes "ts \<noteq> []"
  shows "runningBalance (last (attach_running c ts))
     = Some (foldl (\<lambda>b t. if type t = INCOME then fadd b (amount t) else fsub b (amount t)) c ts)"
proof -
  from assms have len: "length ts - 1 < length ts" by simp
  have "attach_running c ts \<noteq> []"
    using assms length_attach_running [of c ts] by auto
  then have "last (attach_running c ts) = attach_running c ts ! (length ts - 1)"
    by (simp add: last_conv_nth length_attach_running)
  with attach_running_nth [OF len, of c] assms show ?thesis by simp
qed

subsection \<open>The totals of the summary on a ledger of whole numbers\<close>

lemma sum_list_map_mset:
  fixes f :: "Transaction \<Rightarrow> rat"
  assumes "mset xs = mset ys"
  shows "sum_list (map f xs) = sum_list (map f ys)"
proof -
  have "sum_mset (mset (map f xs)) = sum_mset (mset (map f ys))"
    using assms by (metis mset_map)
  then show ?thesis by (simp only: sum_mset_sum_list)
qed

lemma mset_filter_eq: "mset xs = mset ys \<Longrightarrow> mset (filter P xs) = mset (filter P ys)"
  by (metis mset_filter)

lemma whole_ledger_mset:
  assumes "mset xs = mset ys" and "whole_ledger c xs"
  shows "whole_ledger c ys"
proof -
  from assms(1) have "set xs = set ys" by (rule mset_eq_setD)
  moreover have "sum_list (map (\<lambda>t. magnitude (amount t)) xs) = sum_list (map (\<lambda>t. magnitude (amount t)) ys)"
    by (rule sum_list_map_mset [OF assms(1)])
  ultimately show ?thesis using assms(2) by (simp add: whole_ledger_def list_all_iff)
qed

lemma signed_split:
  "sum_list (map signed_value ts) =
     sum_list (map (\<lambda>t. value_of (amount t)) (filter (\<lambda>t. type t = INCOME) ts))
     - sum_list (map (\<lambda>t. value_of (amount t)) (filter (\<lambda>t. type t = EXPENSE) ts))"
proof (induction ts)
  case Nil
  show ?case by simp
next
  case (Cons t ts)
  then show ?case by (cases "type t") (simp_all add: signed_value_def)
qed

lemma magnitude_split:
  "sum_list (map (\<lambda>t. magnitude (amount t)) ts) =
     sum_list (map (\<lambda>t. magnitude (amount t)) (filter (\<lambda>t. type t = INCOME) ts))
     + sum_list (map (\<lambda>t. magnitude (amount t)) (filter (\<lambda>t. type t = EXPENSE) ts))"
proof (induction ts)
  case Nil
  show ?case by simp
next
  case (Cons t ts)
  then show ?case by (cases "type t") simp_all
qed

lemma abs_sum_values:
  "\<bar>sum_list (map (\<lambda>t. value_of (amount t)) ts)\<bar> \<le> sum_list (map (\<lambda>t. magnitude (amount t)) ts)"
proof (induction ts)
  case Nil
  show ?case by simp
next
  case (Cons t ts)
  have "\<bar>value_of (amount t) + sum_list (map (\<lambda>t. value_of (amount t)) ts)\<bar>
      \<le> \<bar>value_of (amount t)\<bar> + \<bar>sum_list (map (\<lambda>t. value_of (amount t)) ts)\<bar>"
    by (rule abs_triangle_ineq)
  with Cons show ?case by (simp add: magnitude_def)
qed

lemma whole_sum_values:
  "list_all (\<lambda>t. whole_number (amount t)) ts \<Longrightarrow>
   whole_number (Finite (sum_list (map (\<lambda>t. value_of (amount t)) ts)))"
proof (induction ts)
  case Nil
  have "whole_number (Finite (of_int 0))" by (rule whole_number_of_int)
  then show ?case by simp
next
  case (Cons t ts)
  then have "whole_number (amount t)"
    and "whole_number (Finite (sum_list (map (\<lambda>t. value_of (amount t)) ts)))" by simp_all
  from whole_sum(1) [OF this] show ?case by simp
qed

lemma summary_whole_record:
  assumes "whole_ledger initial txs"
  shows "summary initial txs =
     \<lparr>initialBalance = initial,
      totalIncome = Finite (sum_list (map (\<lambda>t. value_of (amount t)) (filter (\<lambda>t. type t = INCOME) txs))),
      totalExpenses = Finite (sum_list (map (\<lambda>t. value_of (amount t)) (filter (\<lambda>t. type t = EXPENSE) txs))),
      finalBalance = Finite (value_of initial + sum_list (map signed_value txs))\<rparr>"
proof -
  let ?inc = "filter (\<lambda>t. type t = INCOME) txs" and ?exp = "filter (\<lambda>t. type t = EXPENSE) txs"
  let ?I = "sum_list (map (\<lambda>t. value_of (amount t)) ?inc)"
  let ?E = "sum_list (map (\<lambda>t. value_of (amount t)) ?exp)"
  let ?MI = "sum_list (map (\<lambda>t. magnitude (amount t)) ?inc)"
  let ?ME = "sum_list (map (\<lambda>t. magnitude (amount t)) ?exp)"
  from assms have wi: "whole_number initial" and wa: "list_all (\<lambda>t. whole_number (amount t)) txs"
    and bound: "magnitude initial + sum_list (map (\<lambda>t. magnitude (amount t)) txs) \<le> 2 ^ 53"
    by (simp_all add: whole_ledger_def)
  from bound have bound': "magnitude initial + ?MI + ?ME \<le> 2 ^ 53"
    by (simp add: magnitude_split [of txs])
  have mi: "0 \<le> ?MI" and me: "0 \<le> ?ME" and m0: "0 \<le> magnitude initial"
    by (rule sum_magnitude_nonneg, rule sum_magnitude_nonneg, rule magnitude_nonneg)
  from wa have wai: "list_all (\<lambda>t. whole_number (amount t)) ?inc"
    and wae: "list_all (\<lambda>t. whole_number (amount t)) ?exp" by (simp_all add: list_all_iff)
  have z: "whole_number (Finite 0)" using whole_number_of_int [of 0] by simp
  from bound' mi me m0 have "?MI \<le> 2 ^ 53" and "?ME \<le> 2 ^ 53" by linarith+
  with z wai wae have "whole_ledger (Finite 0) ?inc" and "whole_ledger (Finite 0) ?exp"
    by (simp_all add: whole_ledger_def)
  then have inc: "foldl (\<lambda>acc t. fadd acc (amount t)) (Finite 0) ?inc = Finite ?I"
    and exp: "foldl (\<lambda>acc t. fadd acc (amount t)) (Finite 0) ?exp = Finite ?E"
    using reduce_whole [of "Finite 0" ?inc] reduce_whole [of "Finite 0" ?exp] by simp_all
  note wI = whole_sum_values [OF wai] and wE = whole_sum_values [OF wae]
  have aI: "\<bar>?I\<bar> \<le> ?MI" and aE: "\<bar>?E\<bar> \<le> ?ME" by (rule abs_sum_values)+
  from bound' aI me have "magnitude initial + magnitude (Finite ?I) \<le> 2 ^ 53" by simp
  from fadd_whole [OF wi wI this] have s1: "fadd initial (Finite ?I) = Finite (value_of initial + ?I)"
    by simp
  have w1: "whole_number (Finite (value_of initial + ?I))"
    using whole_sum(1) [OF wi wI] by simp
  have "\<bar>value_of initial + ?I\<bar> \<le> magnitude initial + \<bar>?I\<bar>"
    unfolding magnitude_def by (rule abs_triangle_ineq)
  with bound' aI aE have "magnitude (Finite (value_of initial + ?I)) + magnitude (Finite ?E) \<le> 2 ^ 53"
    by simp
  from fsub_whole [OF w1 wE this]
  have s2: "fsub (Finite (value_of initial + ?I)) (Finite ?E) = Finite (value_of initial + ?I - ?E)"
    by simp
  show ?thesis
    by (simp add: summary_def Let_def inc exp s1 s2 signed_split [of txs])
qed

lemma summary_whole:
  "whole_ledger initial txs \<Longrightarrow>
   finalBalance (summary initial txs) = Finite (value_of initial + sum_list (map signed_value txs))"
  by (simp add: summary_whole_record)

lemma summary_empty:
  assumes "is_double initial"
  shows "finalBalance (summary initial []) = initial"
proof (cases initial)
  case (Finite r)
  with assms have "round_double r = Finite r" by (simp add: is_double_def)
  with Finite show ?thesis by (simp add: summary_def fsub_def Let_def)
qed (simp_all add: summary_def fsub_def Let_def)

subsection \<open>The summary against the running balance\<close>

text \<open>
  Claim C1, with the condition under which it holds. For every sort that meets the contract
  of the engine: on the empty entry list the view is empty and the final balance of the summary is the starting
  balance (\<open>is_double\<close> only says that the starting balance is a number of the language); on
  a non-empty entry list whose starting balance and amounts are whole numbers with magnitudes
  adding up to at most \<open>2 ^ 53\<close>, so that no addition and no subtraction rounds, the view is
  non-empty and the running balance of its last entry is the final balance of the summary.
\<close>

theorem C1_final_balance_is_last_running_balance_without_rounding:
  assumes "sort_contract srt"
  shows "(txs = [] \<longrightarrow> processedTransactions srt getTime initial txs = []
            \<and> (is_double initial \<longrightarrow> finalBalance (summary initial txs) = initial))
       \<and> (txs \<noteq> [] \<and> whole_ledger initial txs \<longrightarrow>
            processedTransactions srt getTime initial txs \<noteq> []
          \<and> runningBalance (last (processedTransactions srt getTime initial txs))
              = Some (finalBalance (summary initial txs)))"
proof (intro conjI impI)
  assume "txs = []"
  with mset_sorted_copy [OF assms, of getTime txs] have "sorted_copy srt getTime txs = []" by simp
  then show "processedTransactions srt getTime initial txs = []"
    by (simp add: processedTransactions_def)
next
  assume "txs = []" and "is_double initial"
  then show "finalBalance (summary initial txs) = initial" by (simp add: summary_empty)
next
  assume "txs \<noteq> [] \<and> whole_ledger initial txs"
  then have "length (processedTransactions srt getTime initial txs) \<noteq> 0"
    by (simp add: processedTransactions_def length_attach_running length_sorted_copy [OF assms])
  then show "processedTransactions srt getTime initial txs \<noteq> []" by simp
next
  assume a: "txs \<noteq> [] \<and> whole_ledger initial txs"
  note perm = mset_sorted_copy [OF assms, of getTime txs]
  from a have ne: "sorted_copy srt getTime txs \<noteq> []"
    using length_sorted_copy [OF assms, of getTime txs] by auto
  from a have w: "whole_ledger initial (sorted_copy srt getTime txs)"
    using whole_ledger_mset [OF perm [symmetric]] by blast
  have "runningBalance (last (processedTransactions srt getTime initial txs))
      = Some (Finite (value_of initial + sum_list (map signed_value (sorted_copy srt getTime txs))))"
    unfolding processedTransactions_def
    by (simp add: attach_running_last [OF ne] foldl_step_whole [OF w])
  also have "sum_list (map signed_value (sorted_copy srt getTime txs)) = sum_list (map signed_value txs)"
    by (rule sum_list_map_mset [OF perm])
  finally show "runningBalance (last (processedTransactions srt getTime initial txs))
      = Some (finalBalance (summary initial txs))"
    using a by (simp add: summary_whole)
qed

lemma whole_ledger_example1: "whole_ledger (Finite 1000) example1"
  by (simp add: whole_ledger_def whole_number_def example1_def tx_pension_def tx_rent_def)

lemma summary_example1:
  "summary (Finite 1000) example1 =
     \<lparr>initialBalance = Finite 1000, totalIncome = Finite 500, totalExpenses = Finite 200,
      finalBalance = Finite 1300\<rparr>"
  unfolding summary_whole_record [OF whole_ledger_example1]
  by (simp add: signed_value_def example1_def tx_pension_def tx_rent_def)

theorem C1_final_balance_witness:
  "example1 \<noteq> [] \<and> whole_ledger (Finite 1000) example1
 \<and> runningBalance (last (processedTransactions array_sort iso_getTime (Finite 1000) example1))
      = Some (Finite 1300)
 \<and> finalBalance (summary (Finite 1000) example1) = Finite 1300
 \<and> processedTransactions array_sort iso_getTime (Finite 1000) [] = []
 \<and> is_double (Finite 1000)
 \<and> finalBalance (summary (Finite 1000) []) = Finite 1000"
proof -
  note c1 = C1_final_balance_is_last_running_balance_without_rounding [OF array_sort_contract]
  have ne: "example1 \<noteq> []" by (simp add: example1_def)
  have fb: "finalBalance (summary (Finite 1000) example1) = Finite 1300"
    by (simp add: summary_example1)
  have d: "is_double (Finite 1000)" by (simp add: is_double_def whole_simps)
  from c1 [of example1 iso_getTime "Finite 1000"] ne whole_ledger_example1
  have "runningBalance (last (processedTransactions array_sort iso_getTime (Finite 1000) example1))
          = Some (finalBalance (summary (Finite 1000) example1))" by blast
  moreover from c1 [of "[]" iso_getTime "Finite 1000"] d
  have "processedTransactions array_sort iso_getTime (Finite 1000) [] = []
      \<and> finalBalance (summary (Finite 1000) []) = Finite 1000" by blast
  ultimately show ?thesis using ne fb d whole_ledger_example1 by simp
qed

lemma iso_time_jan_5: "iso_getTime ''2024-01-05'' = Some 1704412800000"
  by (simp add: iso_getTime_def digit_val_def days_in_month_def leap_year_def day_from_year_def
      days_before_month_def)


lemma iso_time_jan_1: "iso_getTime ''2024-01-01'' = Some 1704067200000"
  by (simp add: iso_getTime_def digit_val_def days_in_month_def leap_year_def day_from_year_def
      days_before_month_def)

lemma iso_time_empty: "iso_getTime [] = None"
  by (simp add: iso_getTime_def)

lemma typed_amounts:
  "amount tx_interest = Finite (3602879701896397 / 36028797018963968)" "amount tx_fee = Finite (5404319552844595 / 18014398509481984)"
  "amount tx_refund = Finite (3602879701896397 / 18014398509481984)" "amount tx_bonus = Finite (5404319552844595 / 18014398509481984)"
  by (simp_all add: tx_interest_def tx_fee_def tx_refund_def tx_bonus_def parseFloat_def
      double_tenth double_two_tenths double_three_tenths)

lemma typed_types:
  "type tx_interest = INCOME" "type tx_fee = EXPENSE" "type tx_refund = INCOME" "type tx_bonus = INCOME"
  by (simp_all add: tx_interest_def tx_fee_def tx_refund_def tx_bonus_def)

lemma typed_dates:
  "date tx_interest = ''2024-01-01''" "date tx_fee = ''2024-01-01''"
  "date tx_refund = ''2024-01-01''" "date tx_bonus = ''2024-01-01''"
  by (simp_all add: tx_interest_def tx_fee_def tx_refund_def tx_bonus_def)

lemma sorted_copy_one_day:
  "sorted_copy array_sort iso_getTime [tx_interest, tx_fee, tx_refund] = [tx_interest, tx_fee, tx_refund]"
  by (simp add: sorted_copy_def array_sort_def compare_dates_def time_diff_def goes_after_def
      typed_dates iso_time_jan_1)

text \<open>
  For every ledger, as the claim is worded, the equality fails: the summary adds the incomes,
  adds the expenses and subtracts one total from the other, the view adds and subtracts entry
  by entry, and the addition of doubles is not associative. With 0.1 received, 0.3 paid and
  0.2 received on one day, from a starting balance of 0, the last running balance is
  \<open>2 powi - 55\<close> and the final balance is \<open>2 powi - 54\<close>.
\<close>

theorem C1_rounding_separates_final_and_running_balance:
  "amount tx_interest = Finite (3602879701896397 / 36028797018963968)
 \<and> amount tx_fee = Finite (5404319552844595 / 18014398509481984)
 \<and> amount tx_refund = Finite (3602879701896397 / 18014398509481984)
 \<and> runningBalance (last (processedTransactions array_sort iso_getTime (Finite 0)
      [tx_interest, tx_fee, tx_refund])) = Some (Finite (1 / 36028797018963968))
 \<and> finalBalance (summary (Finite 0) [tx_interest, tx_fee, tx_refund]) = Finite (1 / 18014398509481984)
 \<and> runningBalance (last (processedTransactions array_sort iso_getTime (Finite 0)
      [tx_interest, tx_fee, tx_refund]))
      \<noteq> Some (finalBalance (summary (Finite 0) [tx_interest, tx_fee, tx_refund]))"
proof -
  have run: "runningBalance (last (processedTransactions array_sort iso_getTime (Finite 0)
      [tx_interest, tx_fee, tx_refund])) = Some (Finite (1 / 36028797018963968))"
    by (simp add: processedTransactions_def sorted_copy_one_day typed_amounts typed_types
        add_zero_tenth sub_tenth_three_tenths add_back_two_tenths del: fadd.simps)
  have fin: "finalBalance (summary (Finite 0) [tx_interest, tx_fee, tx_refund]) = Finite (1 / 18014398509481984)"
    by (simp add: summary_def typed_amounts typed_types add_zero_tenth add_tenth_two_tenths
        add_zero_three_tenths add_zero_sum sub_sum_three_tenths del: fadd.simps)
  from run fin show ?thesis by (simp add: typed_amounts)
qed

subsection \<open>The view: order and running balance\<close>



lemma whole_balances:
  "fsub (Finite 1000) (Finite 200) = Finite 800" "fadd (Finite 800) (Finite 500) = Finite 1300"
  "fsub (Finite 1300) (Finite 50) = Finite 1250" "fsub (Finite 800) (Finite 80) = Finite 720"
  "fadd (Finite 720) (Finite 500) = Finite 1220" "fadd (Finite 1000) (Finite 500) = Finite 1500"
  "fsub (Finite 1500) (Finite 80) = Finite 1420" "fsub (Finite 1420) (Finite 200) = Finite 1220"
  by (simp_all add: fsub_def whole_simps)





subsection \<open>The summary and the order of the entries\<close>

text \<open>
  Claim C8, with the condition under which it holds. For every two entry lists holding the
  same entries in whatever order, when the starting balance and the amounts are whole numbers
  with magnitudes adding up to at most \<open>2 ^ 53\<close>, so that no addition and no subtraction
  rounds, the two summaries are equal: same totalIncome, same totalExpenses, same
  finalBalance.
\<close>

theorem C8_summary_independent_of_order_without_rounding:
  assumes "mset txs = mset txs'" and "whole_ledger initial txs"
  shows "summary initial txs = summary initial txs'"
proof -
  from assms have w': "whole_ledger initial txs'" by (rule whole_ledger_mset)
  have inc: "sum_list (map (\<lambda>t. value_of (amount t)) (filter (\<lambda>t. type t = INCOME) txs))
           = sum_list (map (\<lambda>t. value_of (amount t)) (filter (\<lambda>t. type t = INCOME) txs'))"
    by (rule sum_list_map_mset [OF mset_filter_eq [OF assms(1)]])
  have exp: "sum_list (map (\<lambda>t. value_of (amount t)) (filter (\<lambda>t. type t = EXPENSE) txs))
           = sum_list (map (\<lambda>t. value_of (amount t)) (filter (\<lambda>t. type t = EXPENSE) txs'))"
    by (rule sum_list_map_mset [OF mset_filter_eq [OF assms(1)]])
  have sgn: "sum_list (map signed_value txs) = sum_list (map signed_value txs')"
    by (rule sum_list_map_mset [OF assms(1)])
  show ?thesis
    by (simp only: summary_whole_record [OF assms(2)] summary_whole_record [OF w'] inc exp sgn)
qed

lemma whole_ledger_example_ties: "whole_ledger (Finite 1000) example_ties"
  by (simp add: whole_ledger_def whole_number_def example_ties_def tx_pension_def tx_rent_def
      tx_pharmacy_def)

theorem C8_summary_order_witness:
  "mset example_ties = mset (rev example_ties)
 \<and> whole_ledger (Finite 1000) example_ties
 \<and> summary (Finite 1000) example_ties
      = \<lparr>initialBalance = Finite 1000, totalIncome = Finite 500, totalExpenses = Finite 250,
         finalBalance = Finite 1250\<rparr>
 \<and> summary (Finite 1000) example_ties = summary (Finite 1000) (rev example_ties)"
proof -
  have p: "mset example_ties = mset (rev example_ties)" by simp
  have v: "summary (Finite 1000) example_ties
      = \<lparr>initialBalance = Finite 1000, totalIncome = Finite 500, totalExpenses = Finite 250,
         finalBalance = Finite 1250\<rparr>"
    unfolding summary_whole_record [OF whole_ledger_example_ties]
    by (simp add: signed_value_def example_ties_def tx_pension_def tx_rent_def tx_pharmacy_def)
  from C8_summary_independent_of_order_without_rounding [OF p whole_ledger_example_ties]
    p v whole_ledger_example_ties show ?thesis by simp
qed

text \<open>
  For every ledger, as the claim is worded, the equality fails: the totals are accumulated
  from left to right in the order of the list, and the addition of doubles is not
  associative. Incomes of 0.1, 0.2 and 0.3 total 0.6000000000000001 in this order and 0.6 in
  the reverse order.
\<close>

theorem C8_rounding_depends_on_order:
  "mset [tx_interest, tx_refund, tx_bonus] = mset [tx_bonus, tx_refund, tx_interest]
 \<and> amount tx_interest = Finite (3602879701896397 / 36028797018963968)
 \<and> amount tx_refund = Finite (3602879701896397 / 18014398509481984)
 \<and> amount tx_bonus = Finite (5404319552844595 / 18014398509481984)
 \<and> totalIncome (summary (Finite 0) [tx_interest, tx_refund, tx_bonus]) = Finite (1351079888211149 / 2251799813685248)
 \<and> totalIncome (summary (Finite 0) [tx_bonus, tx_refund, tx_interest]) = Finite (5404319552844595 / 9007199254740992)
 \<and> summary (Finite 0) [tx_interest, tx_refund, tx_bonus]
      \<noteq> summary (Finite 0) [tx_bonus, tx_refund, tx_interest]"
proof -
  have p: "mset [tx_interest, tx_refund, tx_bonus] = mset [tx_bonus, tx_refund, tx_interest]"
    by simp
  have a: "totalIncome (summary (Finite 0) [tx_interest, tx_refund, tx_bonus]) = Finite (1351079888211149 / 2251799813685248)"
    by (simp add: summary_def Let_def typed_amounts typed_types add_zero_tenth
        add_tenth_two_tenths add_sum_three_tenths del: fadd.simps)
  have b: "totalIncome (summary (Finite 0) [tx_bonus, tx_refund, tx_interest]) = Finite (5404319552844595 / 9007199254740992)"
    by (simp add: summary_def Let_def typed_amounts typed_types add_zero_three_tenths
        add_three_tenths_two_tenths add_half_tenth del: fadd.simps)
  from a b have "totalIncome (summary (Finite 0) [tx_interest, tx_refund, tx_bonus])
      \<noteq> totalIncome (summary (Finite 0) [tx_bonus, tx_refund, tx_interest])" by simp
  then have "summary (Finite 0) [tx_interest, tx_refund, tx_bonus]
      \<noteq> summary (Finite 0) [tx_bonus, tx_refund, tx_interest]" by metis
  with p a b show ?thesis by (simp add: typed_amounts)
qed

section \<open>Properties of the entry store\<close>

lemmas example_defs = idle_state_def example1_def tx_pension_def tx_rent_def tx_pharmacy_def

subsection \<open>Adding an entry\<close>

lemma handleAdd_rejects:
  assumes "description_st s = [] \<or> amount_st s = None \<or> (\<exists>r. amount_st s = Some r \<and> r \<le> 0)"
  shows "handleAddTransaction configured remote_error uuid s = Inl FormRejected"
proof -
  have "le_zero (parseFloat (amount_st s))" if "amount_st s = Some r" and "r \<le> 0" for r
    using that by (simp add: parseFloat_def le_zero_round_double)
  with assms show ?thesis by (auto simp: handleAddTransaction_def)
qed

text \<open>
  Claim C3. For every submission of the form, if the description is empty, or the amount is
  empty or not a positive number, or the date is not a valid date, no entry is added and every
  hook (and so the ledger) is as it was: either the browser does not dispatch the event
  (\<open>SubmitBlocked\<close>: an empty description or amount, a date that is not valid), or
  \<open>handleAddTransaction\<close> returns at its guard (\<open>FormRejected\<close>).
\<close>

theorem C3_form_rejects_invalid_input:
  assumes "description_st s = [] \<or> amount_st s = None \<or> (\<exists>r. amount_st s = Some r \<and> r \<le> 0)
         \<or> \<not> valid_date (date_st s)"
  shows "(submitForm valid_date step_ok configured remote_error uuid s = Inl SubmitBlocked
          \<or> submitForm valid_date step_ok configured remote_error uuid s = Inl FormRejected)
       \<and> state_after s (submitForm valid_date step_ok configured remote_error uuid s) = s"
proof (cases "form_valid valid_date step_ok s")
  case False
  then show ?thesis by (simp add: submitForm_def state_after_def)
next
  case True
  with assms have "\<exists>r. amount_st s = Some r \<and> r \<le> 0" by (auto simp: form_valid_def)
  then have "handleAddTransaction configured remote_error uuid s = Inl FormRejected"
    by (intro handleAdd_rejects) simp
  with True show ?thesis by (simp add: submitForm_def state_after_def)
qed

lemma iso_time_jan_10: "iso_getTime ''2024-01-10'' = Some 1704844800000"
  by (simp add: iso_getTime_def digit_val_def days_in_month_def leap_year_def day_from_year_def
      days_before_month_def)

theorem C3_form_rejects_witness:
  "amount_st negative_amount_form = Some (- 5)
 \<and> iso_valid (date_st negative_amount_form)
 \<and> submitForm iso_valid True False False ''u1'' negative_amount_form = Inl FormRejected
 \<and> state_after negative_amount_form (submitForm iso_valid True False False ''u1'' negative_amount_form)
      = negative_amount_form
 \<and> date_st cleared_date_form = []
 \<and> submitForm iso_valid True False False ''u1'' cleared_date_form = Inl SubmitBlocked
 \<and> state_after cleared_date_form (submitForm iso_valid True False False ''u1'' cleared_date_form)
      = cleared_date_form"
proof -
  have a: "amount_st negative_amount_form = Some (- 5)"
    by (simp add: negative_amount_form_def)
  have v: "iso_valid (date_st negative_amount_form)"
    by (simp add: negative_amount_form_def idle_state_def iso_valid_def iso_time_jan_10)
  from a have "\<exists>r. amount_st negative_amount_form = Some r \<and> r \<le> 0" by simp
  then have "description_st negative_amount_form = [] \<or> amount_st negative_amount_form = None
      \<or> (\<exists>r. amount_st negative_amount_form = Some r \<and> r \<le> 0)
      \<or> \<not> iso_valid (date_st negative_amount_form)" by blast
  note n = C3_form_rejects_invalid_input [where s = negative_amount_form and valid_date = iso_valid
      and step_ok = True and configured = False and remote_error = False and uuid = "''u1''", OF this]
  have ok: "form_valid iso_valid True negative_amount_form"
    using v by (simp add: form_valid_def negative_amount_form_def)
  then have "submitForm iso_valid True False False ''u1'' negative_amount_form \<noteq> Inl SubmitBlocked"
    by (simp add: submitForm_def handleAddTransaction_def)
  with n have r: "submitForm iso_valid True False False ''u1'' negative_amount_form = Inl FormRejected
     \<and> state_after negative_amount_form (submitForm iso_valid True False False ''u1'' negative_amount_form)
          = negative_amount_form" by blast
  have d: "date_st cleared_date_form = []" by (simp add: cleared_date_form_def)
  then have "\<not> iso_valid (date_st cleared_date_form)" by (simp add: iso_valid_def iso_time_empty)
  then have "description_st cleared_date_form = [] \<or> amount_st cleared_date_form = None
      \<or> (\<exists>r. amount_st cleared_date_form = Some r \<and> r \<le> 0)
      \<or> \<not> iso_valid (date_st cleared_date_form)" by blast
  note c = C3_form_rejects_invalid_input [where s = cleared_date_form and valid_date = iso_valid
      and step_ok = True and configured = False and remote_error = False and uuid = "''u1''", OF this]
  have "submitForm iso_valid True False False ''u1'' cleared_date_form \<noteq> Inl FormRejected"
    by (simp add: submitForm_def form_valid_def d iso_valid_def iso_time_empty)
  with c have b: "submitForm iso_valid True False False ''u1'' cleared_date_form = Inl SubmitBlocked
     \<and> state_after cleared_date_form (submitForm iso_valid True False False ''u1'' cleared_date_form)
          = cleared_date_form" by blast
  from a v r d b show ?thesis by blast
qed

subsection \<open>Saving an edit\<close>

lemma saveEdit_completes:
  assumes "editForm s = Some form" and "editingId s = Some eid" and "eid \<noteq> []"
    and "\<not> (configured \<and> remote_error)"
  shows "saveEdit configured remote_error s =
           Inr (s\<lparr>transactions := map (\<lambda>t. if id_t t = eid then form else t) (transactions s),
                  editingId := None, editForm := None\<rparr>, [])"
  using assms by (simp add: saveEdit_def)

lemma saveEdit_remote_failure:
  assumes "editForm s = Some form" and "editingId s = Some eid" and "eid \<noteq> []"
    and "configured" and "remote_error"
  shows "saveEdit configured remote_error s = Inl RemoteUpdateError"
  using assms by (simp add: saveEdit_def)

lemma replace_absent:
  "eid \<notin> id_t ` set ts \<Longrightarrow> map (\<lambda>t. if id_t t = eid then form else t) ts = ts"
  by (induction ts) auto

text \<open>
  Claim C4, as the handler has it. For a \<open>saveEdit\<close> on an identifier that the ledger
  holds: when no remote store is configured or the remote update comes back without error, the
  handler completes and every local entry with that identifier is replaced by the edit form;
  when the remote update comes back with an error, the handler reports it (the alert) and
  returns with the local state as it was, so the local entry is not replaced.
\<close>

theorem C4_save_edit_replaces_unless_remote_fails:
  assumes "editForm s = Some form" and "editingId s = Some eid" and "eid \<noteq> []"
    and "eid \<in> id_t ` set (transactions s)"
  shows "(\<not> (configured \<and> remote_error) \<longrightarrow>
            \<not> isl (saveEdit configured remote_error s)
          \<and> transactions (state_after s (saveEdit configured remote_error s))
               = map (\<lambda>t. if id_t t = eid then form else t) (transactions s)
          \<and> form \<in> set (transactions (state_after s (saveEdit configured remote_error s))))
       \<and> (configured \<and> remote_error \<longrightarrow>
            saveEdit configured remote_error s = Inl RemoteUpdateError
          \<and> state_after s (saveEdit configured remote_error s) = s)"
proof (intro conjI impI)
  assume ok: "\<not> (configured \<and> remote_error)"
  note r = saveEdit_completes [OF assms(1-3) ok]
  show "\<not> isl (saveEdit configured remote_error s)" by (simp add: r)
  show "transactions (state_after s (saveEdit configured remote_error s))
          = map (\<lambda>t. if id_t t = eid then form else t) (transactions s)"
    by (simp add: r state_after_def)
  from assms(4) obtain t where "t \<in> set (transactions s)" and "id_t t = eid" by auto
  then have "form \<in> set (map (\<lambda>t. if id_t t = eid then form else t) (transactions s))"
    by force
  then show "form \<in> set (transactions (state_after s (saveEdit configured remote_error s)))"
    by (simp add: r state_after_def)
next
  assume bad: "configured \<and> remote_error"
  then have r: "saveEdit configured remote_error s = Inl RemoteUpdateError"
    using saveEdit_remote_failure [OF assms(1-3)] by blast
  then show "saveEdit configured remote_error s = Inl RemoteUpdateError" .
  from r show "state_after s (saveEdit configured remote_error s) = s"
    by (simp add: state_after_def)
qed

lemma editing_pension_form:
  "editForm editing_pension = Some (tx_pension\<lparr>amount := Finite 600\<rparr>) \<and> editingId editing_pension = Some ''a''
 \<and> transactions editing_pension = [tx_pension, tx_rent]"
  by (simp add: editing_pension_def setEditForm_def startEditing_def example_defs or_zero_def
      parseFloat_def whole_simps)

theorem C4_save_edit_witness:
  "''a'' \<in> id_t ` set (transactions editing_pension)
 \<and> transactions (state_after editing_pension (saveEdit True False editing_pension))
      = [tx_pension\<lparr>amount := Finite 600\<rparr>, tx_rent]
 \<and> transactions (state_after editing_pension (saveEdit False True editing_pension))
      = [tx_pension\<lparr>amount := Finite 600\<rparr>, tx_rent]"
proof -
  have f: "editForm editing_pension = Some (tx_pension\<lparr>amount := Finite 600\<rparr>)"
    and e: "editingId editing_pension = Some ''a''" and n: "''a'' \<noteq> []"
    using editing_pension_form by simp_all
  have p: "''a'' \<in> id_t ` set (transactions editing_pension)"
    by (simp add: editing_pension_form tx_pension_def)
  have m: "map (\<lambda>t. if id_t t = ''a'' then tx_pension\<lparr>amount := Finite 600\<rparr> else t) (transactions editing_pension)
      = [tx_pension\<lparr>amount := Finite 600\<rparr>, tx_rent]"
    by (simp add: editing_pension_form tx_pension_def tx_rent_def)
  from C4_save_edit_replaces_unless_remote_fails [OF f e n p, of True False]
  have a: "transactions (state_after editing_pension (saveEdit True False editing_pension))
      = [tx_pension\<lparr>amount := Finite 600\<rparr>, tx_rent]" by (simp add: m)
  from C4_save_edit_replaces_unless_remote_fails [OF f e n p, of False True]
  have b: "transactions (state_after editing_pension (saveEdit False True editing_pension))
      = [tx_pension\<lparr>amount := Finite 600\<rparr>, tx_rent]" by (simp add: m)
  from p a b show ?thesis by blast
qed

text \<open>
  The claim as the spec states it asks for the local replacement even when the remote update
  fails. With a remote error the entry of the ledger stays as it was.
\<close>

theorem C4_remote_failure_blocks_local_edit:
  "editingId editing_pension = Some ''a''
 \<and> editForm editing_pension = Some (tx_pension\<lparr>amount := Finite 600\<rparr>)
 \<and> ''a'' \<in> id_t ` set (transactions editing_pension)
 \<and> saveEdit True True editing_pension = Inl RemoteUpdateError
 \<and> transactions (state_after editing_pension (saveEdit True True editing_pension)) = [tx_pension, tx_rent]
 \<and> tx_pension\<lparr>amount := Finite 600\<rparr> \<notin> set (transactions (state_after editing_pension (saveEdit True True editing_pension)))"
  by (simp add: editing_pension_form saveEdit_def state_after_def tx_pension_def tx_rent_def)

lemma save_button_rendered_iff:
  "editingId s = Some eid \<Longrightarrow> save_button_rendered s = (eid \<in> id_t ` set (transactions s))"
  by (auto simp: save_button_rendered_def)

text \<open>
  Claim C5, as the page has it. With an edit in progress: when no entry of the ledger carries
  the identifier under edit, the save button is not on the page, no update can take place and
  every hook (and so the ledger) is as it was. When some entry carries it and the remote
  update does not fail, each such entry is replaced by the edit form, every other entry is
  kept, and the edit state is cleared. When some entry carries it and the remote update
  fails, the handler reports the failure and every hook is as it was: nothing is replaced.
\<close>

theorem C5_save_edit_on_present_id_only:
  assumes "editForm s = Some form" and "editingId s = Some eid" and "eid \<noteq> []"
  shows "(eid \<notin> id_t ` set (transactions s) \<longrightarrow>
            clickSave configured remote_error s = Inl NotRendered
          \<and> state_after s (clickSave configured remote_error s) = s)
       \<and> (eid \<in> id_t ` set (transactions s) \<and> \<not> (configured \<and> remote_error) \<longrightarrow>
            clickSave configured remote_error s =
              Inr (s\<lparr>transactions := map (\<lambda>t. if id_t t = eid then form else t) (transactions s),
                     editingId := None, editForm := None\<rparr>, []))
       \<and> (eid \<in> id_t ` set (transactions s) \<and> configured \<and> remote_error \<longrightarrow>
            clickSave configured remote_error s = Inl RemoteUpdateError
          \<and> state_after s (clickSave configured remote_error s) = s)"
proof (intro conjI impI)
  assume "eid \<notin> id_t ` set (transactions s)"
  then have r: "clickSave configured remote_error s = Inl NotRendered"
    by (simp add: clickSave_def save_button_rendered_iff [OF assms(2)])
  then show "clickSave configured remote_error s = Inl NotRendered" .
  from r show "state_after s (clickSave configured remote_error s) = s"
    by (simp add: state_after_def)
next
  assume "eid \<in> id_t ` set (transactions s) \<and> \<not> (configured \<and> remote_error)"
  then show "clickSave configured remote_error s =
              Inr (s\<lparr>transactions := map (\<lambda>t. if id_t t = eid then form else t) (transactions s),
                     editingId := None, editForm := None\<rparr>, [])"
    using saveEdit_completes [OF assms]
    by (simp add: clickSave_def save_button_rendered_iff [OF assms(2)])
next
  assume a: "eid \<in> id_t ` set (transactions s) \<and> configured \<and> remote_error"
  then have r: "clickSave configured remote_error s = Inl RemoteUpdateError"
    using saveEdit_remote_failure [OF assms]
    by (simp add: clickSave_def save_button_rendered_iff [OF assms(2)])
  then show "clickSave configured remote_error s = Inl RemoteUpdateError" .
  from r show "state_after s (clickSave configured remote_error s) = s"
    by (simp add: state_after_def)
qed

lemma editing_absent_form:
  "editForm editing_absent = Some tx_pharmacy \<and> editingId editing_absent = Some ''c''
 \<and> transactions editing_absent = [tx_pension, tx_rent]"
  by (simp add: editing_absent_def startEditing_def example_defs)

lemma editing_rent_form:
  "editForm editing_rent = Some (rent_row\<lparr>description := ''rent and fees''\<rparr>)
 \<and> editingId editing_rent = Some ''b'' \<and> transactions editing_rent = [tx_pension, tx_rent]"
  by (simp add: editing_rent_def setEditForm_def startEditing_def rent_row_def example_defs)

theorem C5_save_edit_witness:
  "''c'' \<notin> id_t ` set (transactions editing_absent)
 \<and> clickSave True False editing_absent = Inl NotRendered
 \<and> ''b'' \<in> id_t ` set (transactions editing_rent)
 \<and> clickSave True False editing_rent =
      Inr (editing_rent\<lparr>transactions := [tx_pension, rent_row\<lparr>description := ''rent and fees''\<rparr>],
             editingId := None, editForm := None\<rparr>, [])"
proof -
  have f: "editForm editing_absent = Some tx_pharmacy"
    and e: "editingId editing_absent = Some ''c''" and n: "''c'' \<noteq> []"
    using editing_absent_form by simp_all
  have p: "''c'' \<notin> id_t ` set (transactions editing_absent)"
    by (simp add: editing_absent_form tx_pension_def tx_rent_def)
  from C5_save_edit_on_present_id_only [OF f e n, of True False] p
  have a: "clickSave True False editing_absent = Inl NotRendered" by blast
  have f': "editForm editing_rent = Some (rent_row\<lparr>description := ''rent and fees''\<rparr>)"
    and e': "editingId editing_rent = Some ''b''" and n': "''b'' \<noteq> []"
    using editing_rent_form by simp_all
  have p': "''b'' \<in> id_t ` set (transactions editing_rent)"
    by (simp add: editing_rent_form tx_rent_def)
  have m: "map (\<lambda>t. if id_t t = ''b'' then rent_row\<lparr>description := ''rent and fees''\<rparr> else t)
      (transactions editing_rent) = [tx_pension, rent_row\<lparr>description := ''rent and fees''\<rparr>]"
    by (simp add: editing_rent_form tx_pension_def tx_rent_def)
  from C5_save_edit_on_present_id_only [OF f' e' n', of True False] p'
  have b: "clickSave True False editing_rent =
      Inr (editing_rent\<lparr>transactions := [tx_pension, rent_row\<lparr>description := ''rent and fees''\<rparr>],
             editingId := None, editForm := None\<rparr>, [])" by (simp add: m)
  from p a p' b show ?thesis by blast
qed

lemma idle_state_view:
  "processedTransactions array_sort iso_getTime (Finite 1000) (transactions idle_state)
     = [rent_row, tx_pension\<lparr>runningBalance := Some (Finite 1300)\<rparr>]"
  by (simp add: processedTransactions_def sorted_copy_def array_sort_def rent_row_def example_defs
      compare_dates_def time_diff_def goes_after_def iso_time_jan_1 iso_time_jan_5 whole_balances
      del: fadd.simps)

text \<open>
  The claim as the spec states it asks for the replacement whenever the identifier is present.
  Here the rent is edited from its row in the table, the remote store is configured, and its
  update fails: the ledger keeps the old entry.
\<close>

theorem C5_present_id_not_replaced_on_remote_failure:
  "processedTransactions array_sort iso_getTime (Finite 1000) (transactions idle_state) ! 0 = rent_row
 \<and> editing_rent = setEditForm (EditDescription ''rent and fees'') (startEditing rent_row idle_state)
 \<and> editingId editing_rent = Some ''b''
 \<and> ''b'' \<in> id_t ` set (transactions editing_rent)
 \<and> clickSave True True editing_rent = Inl RemoteUpdateError
 \<and> transactions (state_after editing_rent (clickSave True True editing_rent)) = [tx_pension, tx_rent]
 \<and> description (transactions (state_after editing_rent (clickSave True True editing_rent)) ! 1)
      = ''rent''"
  by (simp add: idle_state_view editing_rent_form clickSave_def save_button_rendered_def
      saveEdit_def state_after_def tx_pension_def tx_rent_def editing_rent_def [symmetric])

subsection \<open>Deleting an entry\<close>

lemma state_after_delete:
  "state_after s (deleteTransaction configured remote_error i s)
     = s\<lparr>transactions := filter (\<lambda>t. id_t t \<noteq> i) (transactions s)\<rparr>"
  by (simp add: deleteTransaction_def state_after_def)

lemma filter_absent: "i \<notin> id_t ` set ts \<Longrightarrow> filter (\<lambda>t. id_t t \<noteq> i) ts = ts"
  by (induction ts) auto

text \<open>
  Claim C6. \<open>deleteTransaction\<close> always completes; deleting the same identifier a second
  time (whatever the remote store does either time) leaves the state of the first deletion;
  after a deletion no entry carries the identifier; and deleting an identifier that the ledger
  does not hold leaves the state, and so the entry set, unchanged.
\<close>

theorem C6_delete_is_idempotent:
  "\<not> isl (deleteTransaction configured remote_error i s)
 \<and> state_after (state_after s (deleteTransaction configured remote_error i s))
       (deleteTransaction configured' remote_error' i
          (state_after s (deleteTransaction configured remote_error i s)))
     = state_after s (deleteTransaction configured remote_error i s)
 \<and> i \<notin> id_t ` set (transactions (state_after s (deleteTransaction configured remote_error i s)))
 \<and> (i \<notin> id_t ` set (transactions s) \<longrightarrow>
       state_after s (deleteTransaction configured remote_error i s) = s)"
proof (intro conjI impI)
  show "\<not> isl (deleteTransaction configured remote_error i s)"
    by (simp add: deleteTransaction_def)
  show "state_after (state_after s (deleteTransaction configured remote_error i s))
       (deleteTransaction configured' remote_error' i
          (state_after s (deleteTransaction configured remote_error i s)))
     = state_after s (deleteTransaction configured remote_error i s)"
    by (simp add: state_after_delete)
  show "i \<notin> id_t ` set (transactions (state_after s (deleteTransaction configured remote_error i s)))"
    by (auto simp: state_after_delete)
  assume "i \<notin> id_t ` set (transactions s)"
  then show "state_after s (deleteTransaction configured remote_error i s) = s"
    by (simp add: state_after_delete filter_absent)
qed

theorem C6_delete_witness:
  "''nonexistent'' \<notin> id_t ` set (transactions idle_state)
 \<and> \<not> isl (deleteTransaction False False ''nonexistent'' idle_state)
 \<and> state_after idle_state (deleteTransaction False False ''nonexistent'' idle_state) = idle_state"
proof -
  have p: "''nonexistent'' \<notin> id_t ` set (transactions idle_state)"
    by (simp add: example_defs)
  from C6_delete_is_idempotent [of False False "''nonexistent''" idle_state] p
  show ?thesis by blast
qed

subsection \<open>Unique identifiers\<close>

lemma id_edit_field: "id_t (edit_field inp prev) = id_t prev"
  by (cases inp) simp_all

lemma edit_keeps_id_startEditing: "edit_keeps_id (startEditing t s)"
  by (simp add: edit_keeps_id_def startEditing_def)

lemma edit_keeps_id_setEditForm: "edit_keeps_id s \<Longrightarrow> edit_keeps_id (setEditForm inp s)"
  by (auto simp: edit_keeps_id_def setEditForm_def id_edit_field split: option.splits)

lemma edit_keeps_id_fold: "edit_keeps_id s \<Longrightarrow> edit_keeps_id (fold setEditForm inps s)"
  by (induction inps arbitrary: s) (simp_all add: edit_keeps_id_setEditForm)

lemma transactions_setEditForm: "transactions (setEditForm inp s) = transactions s"
  by (simp add: setEditForm_def)

lemma transactions_fold_setEditForm: "transactions (fold setEditForm inps s) = transactions s"
  by (induction inps arbitrary: s) (simp_all add: transactions_setEditForm)

lemma edit_keeps_id_cancelEditing: "edit_keeps_id (cancelEditing s)"
  by (simp add: edit_keeps_id_def cancelEditing_def)

lemma edit_keeps_id_after_saveEdit:
  "edit_keeps_id s \<Longrightarrow> edit_keeps_id (state_after s (saveEdit configured remote_error s))"
  by (auto simp: edit_keeps_id_def saveEdit_def state_after_def split: option.splits)

lemma edit_keeps_id_after_add:
  "edit_keeps_id s \<Longrightarrow> edit_keeps_id (state_after s (handleAddTransaction configured remote_error uuid s))"
  by (auto simp: edit_keeps_id_def handleAddTransaction_def state_after_def Let_def split: option.splits)

lemma edit_keeps_id_after_delete:
  "edit_keeps_id s \<Longrightarrow> edit_keeps_id (state_after s (deleteTransaction configured remote_error i s))"
  by (simp add: edit_keeps_id_def state_after_delete split: option.splits)

lemma ids_after_replace:
  "id_t form = eid \<Longrightarrow> map id_t (map (\<lambda>t. if id_t t = eid then form else t) ts) = map id_t ts"
  by (induction ts) auto

lemma unique_ids_after_saveEdit:
  assumes "unique_ids s" and "edit_keeps_id s"
  shows "unique_ids (state_after s (saveEdit configured remote_error s))"
proof (cases "saveEdit configured remote_error s")
  case (Inl e)
  with assms(1) show ?thesis by (simp add: state_after_def)
next
  case (Inr p)
  then obtain form eid where f: "editForm s = Some form" and e: "editingId s = Some eid"
    and p: "p = (s\<lparr>transactions := map (\<lambda>t. if id_t t = eid then form else t) (transactions s),
                  editingId := None, editForm := None\<rparr>, [])"
    by (auto simp: saveEdit_def split: option.splits if_splits)
  from assms(2) f e have "id_t form = eid" by (simp add: edit_keeps_id_def)
  then have "map id_t (map (\<lambda>t. if id_t t = eid then form else t) (transactions s))
      = map id_t (transactions s)"
    by (rule ids_after_replace)
  with assms(1) show ?thesis
    by (simp add: Inr p state_after_def unique_ids_def del: map_map)
qed

text \<open>
  Claim C9. From a ledger whose identifiers are pairwise distinct, each mutation leads to a
  ledger whose identifiers are pairwise distinct: \<open>handleAddTransaction\<close> when the
  generated identifier is not yet in the ledger; \<open>saveEdit\<close> when the edit form carries the
  identifier under edit, which is what \<open>startEditing\<close> sets up and every input of the edited
  row keeps, so that the whole update (begin the edit of a row, change fields, save) does;
  and \<open>deleteTransaction\<close>.
\<close>

theorem C9_mutations_keep_ids_unique:
  assumes "unique_ids s"
  shows "(uuid \<notin> id_t ` set (transactions s) \<longrightarrow>
            unique_ids (state_after s (handleAddTransaction configured remote_error uuid s)))
       \<and> (edit_keeps_id s \<longrightarrow> unique_ids (state_after s (saveEdit configured remote_error s)))
       \<and> unique_ids (state_after (fold setEditForm inps (startEditing t s))
                       (saveEdit configured remote_error (fold setEditForm inps (startEditing t s))))
       \<and> unique_ids (state_after s (deleteTransaction configured remote_error i s))"
proof (intro conjI impI)
  assume "uuid \<notin> id_t ` set (transactions s)"
  with assms show "unique_ids (state_after s (handleAddTransaction configured remote_error uuid s))"
    by (auto simp: unique_ids_def handleAddTransaction_def state_after_def Let_def)
next
  assume "edit_keeps_id s"
  with assms show "unique_ids (state_after s (saveEdit configured remote_error s))"
    by (rule unique_ids_after_saveEdit)
next
  let ?s = "fold setEditForm inps (startEditing t s)"
  have "transactions ?s = transactions s"
    by (simp add: transactions_fold_setEditForm startEditing_def)
  with assms have u: "unique_ids ?s" by (simp add: unique_ids_def)
  have k: "edit_keeps_id ?s"
    by (rule edit_keeps_id_fold [OF edit_keeps_id_startEditing])
  from u k show "unique_ids (state_after ?s (saveEdit configured remote_error ?s))"
    by (rule unique_ids_after_saveEdit)
next
  from assms show "unique_ids (state_after s (deleteTransaction configured remote_error i s))"
    by (simp add: unique_ids_def state_after_delete distinct_map_filter)
qed

theorem C9_unique_ids_witness:
  "unique_ids filled_form
 \<and> ''c'' \<notin> id_t ` set (transactions filled_form)
 \<and> unique_ids (state_after filled_form (handleAddTransaction False False ''c'' filled_form))
 \<and> edit_keeps_id editing_pension
 \<and> unique_ids (state_after editing_pension (saveEdit False False editing_pension))
 \<and> unique_ids (state_after filled_form (deleteTransaction False False ''a'' filled_form))"
proof -
  have u: "unique_ids filled_form"
    by (simp add: unique_ids_def filled_form_def example_defs)
  have p: "''c'' \<notin> id_t ` set (transactions filled_form)"
    by (simp add: filled_form_def example_defs)
  have u': "unique_ids editing_pension"
    by (simp add: unique_ids_def editing_pension_form tx_pension_def tx_rent_def)
  have k: "edit_keeps_id editing_pension"
    by (simp add: edit_keeps_id_def editing_pension_form tx_pension_def)
  from C9_mutations_keep_ids_unique [OF u, of "''c''" False False _ _ "''a''"] p
  have a: "unique_ids (state_after filled_form (handleAddTransaction False False ''c'' filled_form))"
    and d: "unique_ids (state_after filled_form (deleteTransaction False False ''a'' filled_form))"
    by blast+
  from C9_mutations_keep_ids_unique [OF u', of _ False False] k
  have b: "unique_ids (state_after editing_pension (saveEdit False False editing_pension))"
    by blast
  from u p a k b d show ?thesis by blast
qed

section \<open>Properties of the advice requester\<close>

text \<open>
  Claim C7. \<open>getFinancialAdvice\<close> never throws: it returns a text for every entry list,
  summary, access key and behaviour of the remote endpoint. It returns the sentence
  \<open>msg_no_entries\<close> when the entry list is empty; otherwise \<open>msg_key_pending\<close> when the
  access key is undefined or empty; otherwise \<open>msg_resting\<close> when the remote call throws,
  and \<open>msg_no_advice\<close> when the response has no text. The earlier variant of the service
  never throws either, returns \<open>msg_no_entries\<close> for an empty list and \<open>msg_error_v1\<close>
  when the remote call throws; it has no check of the key and passes an absent key to the
  remote call as the empty string.
\<close>

theorem C7_advice_returns_text_and_never_throws:
  "getFinancialAdvice API_KEY generateContent toFixed2 txs sm \<noteq> Throws
 \<and> (txs = [] \<longrightarrow>
       getFinancialAdvice API_KEY generateContent toFixed2 txs sm = Returns msg_no_entries)
 \<and> (txs \<noteq> [] \<and> (API_KEY = None \<or> API_KEY = Some []) \<longrightarrow>
       getFinancialAdvice API_KEY generateContent toFixed2 txs sm = Returns msg_key_pending)
 \<and> (txs \<noteq> [] \<and> API_KEY = Some apiKey \<and> apiKey \<noteq> []
       \<and> generateContent apiKey (advice_contents toFixed2 txs sm) = Throws \<longrightarrow>
       getFinancialAdvice API_KEY generateContent toFixed2 txs sm = Returns msg_resting)
 \<and> (txs \<noteq> [] \<and> API_KEY = Some apiKey \<and> apiKey \<noteq> []
       \<and> generateContent apiKey (advice_contents toFixed2 txs sm) = Returns None \<longrightarrow>
       getFinancialAdvice API_KEY generateContent toFixed2 txs sm = Returns msg_no_advice)
 \<and> getFinancialAdvice_v1 API_KEY generateContent toFixed2 txs sm \<noteq> Throws
 \<and> (txs = [] \<longrightarrow>
       getFinancialAdvice_v1 API_KEY generateContent toFixed2 txs sm = Returns msg_no_entries)
 \<and> (txs \<noteq> [] \<and> generateContent (case API_KEY of None \<Rightarrow> [] | Some k \<Rightarrow> k)
                       (advice_contents_v1 toFixed2 txs sm) = Throws \<longrightarrow>
       getFinancialAdvice_v1 API_KEY generateContent toFixed2 txs sm = Returns msg_error_v1)"
proof (intro conjI impI)
  show "getFinancialAdvice API_KEY generateContent toFixed2 txs sm \<noteq> Throws"
    by (simp add: getFinancialAdvice_def split: option.splits attempt.splits)
  show "getFinancialAdvice_v1 API_KEY generateContent toFixed2 txs sm \<noteq> Throws"
    by (simp add: getFinancialAdvice_v1_def split: attempt.splits)
qed (auto simp: getFinancialAdvice_def getFinancialAdvice_v1_def text_or_def)

theorem C7_advice_witness:
  "example1 \<noteq> []
 \<and> getFinancialAdvice (Some ''key'') remote_down fixed2 [] (summary (Finite 1000) []) = Returns msg_no_entries
 \<and> getFinancialAdvice None remote_answers fixed2 example1 (summary (Finite 1000) example1) = Returns msg_key_pending
 \<and> getFinancialAdvice (Some ''key'') remote_down fixed2 example1 (summary (Finite 1000) example1) = Returns msg_resting
 \<and> getFinancialAdvice (Some ''key'') remote_silent fixed2 example1 (summary (Finite 1000) example1) = Returns msg_no_advice
 \<and> getFinancialAdvice_v1 None remote_down fixed2 example1 (summary (Finite 1000) example1) = Returns msg_error_v1"
proof -
  have ne: "example1 \<noteq> []" by (simp add: example1_def)
  note c7 = C7_advice_returns_text_and_never_throws
  from c7 [of "Some ''key''" remote_down fixed2 "[]" "summary (Finite 1000) []"]
  have a: "getFinancialAdvice (Some ''key'') remote_down fixed2 [] (summary (Finite 1000) []) = Returns msg_no_entries"
    by blast
  from c7 [of None remote_answers fixed2 example1 "summary (Finite 1000) example1"] ne
  have b: "getFinancialAdvice None remote_answers fixed2 example1 (summary (Finite 1000) example1) = Returns msg_key_pending"
    by blast
  have k: "Some ''key'' = Some ''key'' \<and> ''key'' \<noteq> []" by simp
  have d: "remote_down ''key'' (advice_contents fixed2 example1 (summary (Finite 1000) example1)) = Throws"
    by (simp add: remote_down_def)
  from c7 [of "Some ''key''" remote_down fixed2 example1 "summary (Finite 1000) example1" "''key''"] ne k d
  have c: "getFinancialAdvice (Some ''key'') remote_down fixed2 example1 (summary (Finite 1000) example1) = Returns msg_resting"
    by blast
  have d': "remote_silent ''key'' (advice_contents fixed2 example1 (summary (Finite 1000) example1)) = Returns None"
    by (simp add: remote_silent_def)
  from c7 [of "Some ''key''" remote_silent fixed2 example1 "summary (Finite 1000) example1" "''key''"] ne k d'
  have e: "getFinancialAdvice (Some ''key'') remote_silent fixed2 example1 (summary (Finite 1000) example1) = Returns msg_no_advice"
    by blast
  have d1: "remote_down (case None of None \<Rightarrow> [] | Some k \<Rightarrow> k)
               (advice_contents_v1 fixed2 example1 (summary (Finite 1000) example1)) = Throws"
    by (simp add: remote_down_def)
  from c7 [of None remote_down fixed2 example1 "summary (Finite 1000) example1"] ne d1
  have f: "getFinancialAdvice_v1 None remote_down fixed2 example1 (summary (Finite 1000) example1) = Returns msg_error_v1"
    by blast
  from ne a b c e f show ?thesis by blast
qed

subsection \<open>What the request is built from\<close>

lemma slice_last_append: "n \<le> length recent \<Longrightarrow> slice_last n (older @ recent) = slice_last n recent"
  by (simp add: slice_last_def)

lemma advice_contents_cong:
  "slice_last 5 txs = slice_last 5 txs' \<Longrightarrow>
   advice_contents toFixed2 txs sm = advice_contents toFixed2 txs' sm"
  by (simp add: advice_contents_def)

lemma advice_contents_v1_cong:
  "slice_last 5 txs = slice_last 5 txs' \<Longrightarrow>
   advice_contents_v1 toFixed2 txs sm = advice_contents_v1 toFixed2 txs' sm"
  by (simp add: advice_contents_v1_def)

text \<open>
  Claim C10. For every two non-empty entry lists with the same last five elements
  (\<open>slice(-5)\<close>) and the same summary, the request text is the same, in both variants of
  the service, and so is the result of the service for any access key and any remote endpoint:
  entries before the last five do not reach the request.
\<close>

theorem C10_request_depends_on_last_five_only:
  assumes "txs \<noteq> []" and "txs' \<noteq> []" and "slice_last 5 txs = slice_last 5 txs'"
  shows "advice_contents toFixed2 txs sm = advice_contents toFixed2 txs' sm
       \<and> getFinancialAdvice API_KEY generateContent toFixed2 txs sm
           = getFinancialAdvice API_KEY generateContent toFixed2 txs' sm
       \<and> advice_contents_v1 toFixed2 txs sm = advice_contents_v1 toFixed2 txs' sm
       \<and> getFinancialAdvice_v1 API_KEY generateContent toFixed2 txs sm
           = getFinancialAdvice_v1 API_KEY generateContent toFixed2 txs' sm"
proof -
  have a: "advice_contents toFixed2 txs sm = advice_contents toFixed2 txs' sm"
    by (rule advice_contents_cong [OF assms(3)])
  have b: "advice_contents_v1 toFixed2 txs sm = advice_contents_v1 toFixed2 txs' sm"
    by (rule advice_contents_v1_cong [OF assms(3)])
  from assms(1,2) have "getFinancialAdvice API_KEY generateContent toFixed2 txs sm
           = getFinancialAdvice API_KEY generateContent toFixed2 txs' sm"
    by (simp add: getFinancialAdvice_def a split: option.splits)
  moreover from assms(1,2) have "getFinancialAdvice_v1 API_KEY generateContent toFixed2 txs sm
           = getFinancialAdvice_v1 API_KEY generateContent toFixed2 txs' sm"
    by (simp add: getFinancialAdvice_v1_def b split: option.splits)
  ultimately show ?thesis using a b by blast
qed


theorem C10_request_witness:
  "tx_rent # recent_five \<noteq> []
 \<and> [tx_pension, tx_pharmacy] @ recent_five \<noteq> []
 \<and> slice_last 5 (tx_rent # recent_five) = recent_five
 \<and> slice_last 5 ([tx_pension, tx_pharmacy] @ recent_five) = recent_five
 \<and> advice_contents fixed2 (tx_rent # recent_five) (summary (Finite 1000) example1)
      = advice_contents fixed2 ([tx_pension, tx_pharmacy] @ recent_five) (summary (Finite 1000) example1)
 \<and> getFinancialAdvice (Some ''key'') remote_answers fixed2 (tx_rent # recent_five) (summary (Finite 1000) example1)
      = getFinancialAdvice (Some ''key'') remote_answers fixed2 ([tx_pension, tx_pharmacy] @ recent_five)
          (summary (Finite 1000) example1)"
proof -
  have n1: "tx_rent # recent_five \<noteq> []" and n2: "[tx_pension, tx_pharmacy] @ recent_five \<noteq> []"
    by simp_all
  have s1: "slice_last 5 (tx_rent # recent_five) = recent_five"
    by (simp add: slice_last_def recent_five_def)
  have s2: "slice_last 5 ([tx_pension, tx_pharmacy] @ recent_five) = recent_five"
    by (simp add: slice_last_def recent_five_def)
  from s1 s2 have eq: "slice_last 5 (tx_rent # recent_five) = slice_last 5 ([tx_pension, tx_pharmacy] @ recent_five)"
    by simp
  from C10_request_depends_on_last_five_only [OF n1 n2 eq, of fixed2 "summary (Finite 1000) example1" "Some ''key''" remote_answers]
    n1 n2 s1 s2 show ?thesis by blast
qed

subsection \<open>The number format at concrete amounts\<close>

lemma fixed2_500: "fixed2 (Finite 500) = ''500.00''"
  by (simp add: fixed2_def fixed2_finite_def digit_char_def Let_def floor_rat_numeral)

lemma double_1005:
  "parseFloat (Some (1005 / 1000)) = Finite (1131529406376837 / 1125899906842624)"
  using round_double_eval [of "201 / 200" "0"] by (simp add: parseFloat_def eval_simps)

lemma fixed2_below_tie: "fixed2 (parseFloat (Some (1005 / 1000))) = ''1.00''"
  unfolding double_1005
  by (simp add: fixed2_def fixed2_finite_def digit_char_def Let_def floor_rat_numeral)

lemma fixed2_negative: "fixed2 (Finite (- 5 / 1000)) = ''-0.01''"
  by (simp add: fixed2_def fixed2_finite_def digit_char_def Let_def floor_rat_numeral)

lemma fixed2_not_a_number: "fixed2 (parseFloat None) = ''NaN''"
  by (simp add: fixed2_def parseFloat_def)

lemma recent_line_pension:
  "recent_line fixed2 tx_pension = ''- 2024-01-05: pension (R$ 500.00 - Entrada)''"
  by (simp add: recent_line_def tx_pension_def fixed2_500)

end
